theory Spec2Isabelle
  imports Complex_Main "HOL-Library.Multiset" "HOL-Library.Code_Target_Numeral"
begin

text \<open>
  A model of \<^verbatim>\<open>lib/cli.js\<close>, the command-line interface of Yeti: the process that
  connects to a hub or creates one, waits for agents, submits a batch of tests and folds the
  events of the batch into counters, a progress line and an exit status. Each function of
  the file is a function on the state of the process; what the process prints and calls is
  recorded in that state, in order; the callbacks it registers are run by events.
\<close>

section \<open>JavaScript values\<close>

text \<open>
  The command-line interface \<^verbatim>\<open>lib/cli.js\<close> handles data that arrives from the hub:
  result trees, error objects, agent lists. They are modelled by a datatype of JavaScript
  values. A number of JavaScript is an IEEE 754 double; the numbers of the model are the
  integers among them (\<open>JNum i\<close>, for an integer \<open>i\<close> that a double holds: every integer up
  to \<open>2^53\<close> in magnitude, and beyond that the integers with 53 significant bits), \<open>NaN\<close>
  and the two infinities. An object is the list of its enumerable properties in the order
  \<^verbatim>\<open>for (k in o)\<close> visits them; a property is looked up by the first entry of its key.
  The data is what a message of the hub decodes to: a tree, in which two objects at different
  places are different objects.
\<close>

datatype jsval =
    JUndefined
  | JNull
  | JBool bool
  | JNum int
  | JNaN
  | JPosInf
  | JNegInf
  | JStr string
  | JObj "(string \<times> jsval) list"

subsection \<open>Integers as doubles\<close>

text \<open>The number of binary digits of a natural number.\<close>

fun bits :: "nat \<Rightarrow> nat" where
  "bits n = (if n = 0 then 0 else Suc (bits (n div 2)))"

declare bits.simps [simp del]

text \<open>
  The double nearest to an integer, as an integer again: up to \<open>2^53\<close> every integer is a
  double; a larger one is rounded to 53 significant bits, to the nearest such value and to
  the even one of two nearest.
\<close>

definition round_int :: "int \<Rightarrow> int" where
  "round_int i =
     (if \<bar>i\<bar> \<le> 2 ^ 53 then i
      else (let e = bits (nat \<bar>i\<bar>) - 53;
                q = \<bar>i\<bar> div 2 ^ e;
                r = \<bar>i\<bar> mod 2 ^ e;
                m = (if 2 ^ e < 2 * r \<or> (2 * r = 2 ^ e \<and> odd q) then q + 1 else q)
            in sgn i * (m * 2 ^ e)))"

text \<open>The Number value for an integer: a result that rounds to \<open>2^1024\<close> or beyond is an
  infinity.\<close>

definition js_number :: "int \<Rightarrow> jsval" where
  "js_number i =
     (let r = round_int i
      in if 2 ^ 1024 \<le> \<bar>r\<bar> then (if 0 < r then JPosInf else JNegInf) else JNum r)"

subsection \<open>Numbers as strings\<close>

text \<open>The decimal digits of a natural number.\<close>

fun dec_nat :: "nat \<Rightarrow> string" where
  "dec_nat n =
     (if n < 10 then [''0123456789'' ! n]
      else dec_nat (n div 10) @ [''0123456789'' ! (n mod 10)])"

declare dec_nat.simps [simp del]

text \<open>
  \<^verbatim>\<open>ToString\<close> of a number (ECMAScript 9.8.1) prints the shortest digits \<open>s\<close>, \<open>k\<close> of
  them, for which \<open>s * 10^(n - k)\<close> reads back as the number. For a double \<open>a\<close> of \<open>nd\<close>
  decimal digits, beyond \<open>2^53\<close>, the search goes through \<open>k = 1, 2, \<dots>\<close>; the candidates with
  \<open>k\<close> digits are the two multiples of \<open>10^(nd - k)\<close> around \<open>a\<close>, the nearer one is taken,
  and the even one of two equally near. With all \<open>nd\<close> digits the number itself is found.
\<close>

function shortest_digits :: "int \<Rightarrow> nat \<Rightarrow> nat \<Rightarrow> int \<times> nat" where
  "shortest_digits a nd k =
     (if nd \<le> k then (a, nd)
      else (let p = 10 ^ (nd - k);
                lo = a div p;
                hi = lo + 1;
                ok_lo = (round_int (lo * p) = a);
                ok_hi = (hi < 10 ^ k \<and> round_int (hi * p) = a)
            in if ok_lo \<and> ok_hi then
                 (if a - lo * p < hi * p - a then (lo, k)
                  else if hi * p - a < a - lo * p then (hi, k)
                  else if even lo then (lo, k) else (hi, k))
               else if ok_lo then (lo, k)
               else if ok_hi then (hi, k)
               else shortest_digits a nd (Suc k)))"
  by pat_completeness auto

termination
  by (relation "measure (\<lambda>(a, nd, k). nd - k)") auto

declare shortest_digits.simps [simp del]

text \<open>
  The string of a double that is a natural number. Up to \<open>2^53\<close> neighbouring doubles are at
  most 1 apart, and the digits of the number are the shortest that read back as it. Beyond,
  the digits found are followed by zeros while the number has at most 21 digits, and are
  printed with an exponent otherwise. A double just below a power of ten that this power
  reads back as prints as that power.
\<close>

definition nat_string :: "int \<Rightarrow> string" where
  "nat_string a =
     (if a \<le> 2 ^ 53 then dec_nat (nat a)
      else (let nd = length (dec_nat (nat a));
                up = (round_int (10 ^ nd) = a);
                sk = (if up then (1, 1) else shortest_digits a nd 1);
                n = (if up then Suc nd else nd);
                ds = dec_nat (nat (fst sk));
                k = snd sk
            in if n \<le> 21 then ds @ replicate (n - k) CHR ''0''
               else (if k = 1 then ds else take 1 ds @ ''.'' @ drop 1 ds) @
                    ''e+'' @ dec_nat (n - 1)))"

text \<open>\<^verbatim>\<open>String(i)\<close>, and \<^verbatim>\<open>"" + i\<close>, for an integer \<open>i\<close>.\<close>

definition dec_int :: "int \<Rightarrow> string" where
  "dec_int i =
     (let r = round_int i in if r < 0 then ''-'' @ nat_string (- r) else nat_string r)"

text \<open>\<^verbatim>\<open>ToString\<close>, as string concatenation applies it. The objects of the program are
  plain data objects, which print as \<^verbatim>\<open>[object Object]\<close>.\<close>

fun to_str :: "jsval \<Rightarrow> string" where
  "to_str JUndefined = ''undefined''"
| "to_str JNull = ''null''"
| "to_str (JBool b) = (if b then ''true'' else ''false'')"
| "to_str (JNum i) = dec_int i"
| "to_str JNaN = ''NaN''"
| "to_str JPosInf = ''Infinity''"
| "to_str JNegInf = ''-Infinity''"
| "to_str (JStr s) = s"
| "to_str (JObj ps) = ''[object Object]''"

text \<open>\<^verbatim>\<open>ToBoolean\<close>: what \<^verbatim>\<open>if (v)\<close> and \<^verbatim>\<open>!v\<close> test.\<close>

fun truthy :: "jsval \<Rightarrow> bool" where
  "truthy JUndefined = False"
| "truthy JNull = False"
| "truthy (JBool b) = b"
| "truthy (JNum i) = (i \<noteq> 0)"
| "truthy JNaN = False"
| "truthy JPosInf = True"
| "truthy JNegInf = True"
| "truthy (JStr s) = (s \<noteq> [])"
| "truthy (JObj ps) = True"

text \<open>\<^verbatim>\<open>ToNumber\<close> on the values that are not strings or objects (\<^verbatim>\<open>+\<close> concatenates
  those).\<close>

fun to_number :: "jsval \<Rightarrow> jsval" where
  "to_number JUndefined = JNaN"
| "to_number JNull = JNum 0"
| "to_number (JBool b) = JNum (if b then 1 else 0)"
| "to_number (JNum i) = JNum i"
| "to_number JPosInf = JPosInf"
| "to_number JNegInf = JNegInf"
| "to_number v = JNaN"

fun is_stringy :: "jsval \<Rightarrow> bool" where
  "is_stringy (JStr s) = True"
| "is_stringy (JObj ps) = True"
| "is_stringy _ = False"

text \<open>
  The sum of two numbers, as IEEE 754 has it: \<open>NaN\<close> if either is, or if the two are the
  opposite infinities; an infinity if one is; and otherwise the double nearest to the sum of
  the two integers.
\<close>

definition add_numbers :: "jsval \<Rightarrow> jsval \<Rightarrow> jsval" where
  "add_numbers a b =
     (if a = JNaN \<or> b = JNaN then JNaN
      else if a = JPosInf then (if b = JNegInf then JNaN else JPosInf)
      else if a = JNegInf then (if b = JPosInf then JNaN else JNegInf)
      else if b = JPosInf \<or> b = JNegInf then b
      else (case (a, b) of (JNum x, JNum y) \<Rightarrow> js_number (x + y) | _ \<Rightarrow> JNaN))"

text \<open>The operator \<^verbatim>\<open>+\<close>: concatenation when either operand is a string (or an
  object, whose primitive value is a string), numeric addition otherwise.\<close>

definition js_add :: "jsval \<Rightarrow> jsval \<Rightarrow> jsval" where
  "js_add a b =
     (if is_stringy a \<or> is_stringy b then JStr (to_str a @ to_str b)
      else add_numbers (to_number a) (to_number b))"

text \<open>\<^verbatim>\<open>typeof v === "object"\<close> holds of objects and of \<^verbatim>\<open>null\<close>.\<close>

fun typeof_object :: "jsval \<Rightarrow> bool" where
  "typeof_object (JObj ps) = True"
| "typeof_object JNull = True"
| "typeof_object _ = False"

text \<open>Reading a named property \<^verbatim>\<open>v.key\<close>: \<open>None\<close> is the \<^verbatim>\<open>TypeError\<close> that
  \<^verbatim>\<open>null\<close> and \<^verbatim>\<open>undefined\<close> raise; a primitive has none of the properties the
  program reads (\<^verbatim>\<open>result\<close>, \<^verbatim>\<open>message\<close>, \<^verbatim>\<open>name\<close>, \<^verbatim>\<open>failed\<close>,
  \<^verbatim>\<open>passed\<close>).\<close>

fun js_get :: "jsval \<Rightarrow> string \<Rightarrow> jsval option" where
  "js_get JUndefined k = None"
| "js_get JNull k = None"
| "js_get (JObj ps) k = (case map_of ps k of None \<Rightarrow> Some JUndefined | Some v \<Rightarrow> Some v)"
| "js_get v k = Some JUndefined"

text \<open>\<^verbatim>\<open>key in v\<close>: \<open>None\<close> is the \<^verbatim>\<open>TypeError\<close> raised when \<open>v\<close> is not an
  object.\<close>

fun js_in :: "string \<Rightarrow> jsval \<Rightarrow> bool option" where
  "js_in k (JObj ps) = Some (map_of ps k \<noteq> None)"
| "js_in k v = None"

text \<open>The properties \<^verbatim>\<open>for (i in v)\<close> visits, each with the value \<^verbatim>\<open>v[i]\<close>: those
  of an object, the indices of a string (each holding a one-character string), none otherwise.\<close>

fun for_in :: "jsval \<Rightarrow> (string \<times> jsval) list" where
  "for_in (JObj ps) = ps"
| "for_in (JStr s) = map (\<lambda>i. (dec_nat i, JStr [s ! i])) [0..<length s]"
| "for_in v = []"

text \<open>\<^verbatim>\<open>s.split("\n")\<close>: the lines of a string; never empty.\<close>

fun split_nl :: "string \<Rightarrow> string list" where
  "split_nl [] = [[]]"
| "split_nl (c # cs) =
     (if c = CHR 0x0A then [] # split_nl cs
      else (case split_nl cs of l # ls \<Rightarrow> (c # l) # ls | [] \<Rightarrow> [[c]]))"

subsection \<open>Quotients\<close>

text \<open>
  The progress line divides: \<^verbatim>\<open>current / total * 100\<close> and
  \<^verbatim>\<open>(beats * 1000) / elapsed\<close>. The operands are counters of the process and readings of
  its clock, which are integers; the result is a double, given by its exact value, or one of
  the values IEEE 754 gives for a zero divisor: \<open>0 / 0\<close> is \<open>NaN\<close>, \<open>x / 0\<close> is an infinity
  with the sign of \<open>x\<close>.
\<close>

datatype jsnum = NFin rat | NNaN | NPosInf | NNegInf

definition pow2 :: "int \<Rightarrow> rat" where
  "pow2 e = (if 0 \<le> e then 2 ^ nat e else 1 / 2 ^ nat (- e))"

text \<open>
  The double nearest to a fraction: the fraction is scaled by the power of two that brings
  it between \<open>2^52\<close> and \<open>2^53\<close> (for the smallest numbers, by \<open>2^1074\<close>), rounded to the
  nearest integer, to the even one of two nearest, and scaled back; a result of \<open>2^1024\<close> or
  more is an infinity.
\<close>

definition nearest_double :: "rat \<Rightarrow> jsnum" where
  "nearest_double q =
     (if q = 0 then NFin 0
      else (let a = \<bar>q\<bar>;
                e0 = int (bits (nat (fst (quotient_of a)))) -
                     int (bits (nat (snd (quotient_of a)))) - 53;
                e = max (if 2 ^ 53 \<le> a / pow2 e0 then e0 + 1 else e0) (- 1074);
                t = a / pow2 e;
                m = \<lfloor>t\<rfloor>;
                m' = (if 1 / 2 < t - of_int m \<or> (t - of_int m = 1 / 2 \<and> odd m)
                      then m + 1 else m);
                v = of_int m' * pow2 e
            in if 2 ^ 1024 \<le> v then (if 0 < q then NPosInf else NNegInf)
               else NFin (if 0 < q then v else - v)))"

definition js_div :: "int \<Rightarrow> int \<Rightarrow> jsnum" where
  "js_div a b =
     (if b = 0 then (if a = 0 then NNaN else if 0 < a then NPosInf else NNegInf)
      else nearest_double (of_int a / of_int b))"

fun js_mul :: "jsnum \<Rightarrow> int \<Rightarrow> jsnum" where
  "js_mul (NFin q) k = nearest_double (q * of_int k)"
| "js_mul NNaN k = NNaN"
| "js_mul NPosInf k = (if k = 0 then NNaN else if 0 < k then NPosInf else NNegInf)"
| "js_mul NNegInf k = (if k = 0 then NNaN else if 0 < k then NNegInf else NPosInf)"

text \<open>\<^verbatim>\<open>x.toFixed(f)\<close> (ECMAScript 15.7.4.5): \<open>NaN\<close> and the infinities print by
  name; a number of magnitude \<open>10^21\<close> or more (an integer, then) prints as \<^verbatim>\<open>String(x)\<close>;
  otherwise the integer \<open>n\<close> nearest to \<open>x * 10^f\<close> (the larger one of two) is printed with
  \<open>f\<close> digits after the point.\<close>

definition fixed_digits :: "nat \<Rightarrow> nat \<Rightarrow> string" where
  "fixed_digits f n =
     (let m = dec_nat n in
      if f = 0 then m
      else (let z = replicate (Suc f - length m) CHR ''0'' @ m;
                k = length z
            in take (k - f) z @ ''.'' @ drop (k - f) z))"

fun toFixed :: "nat \<Rightarrow> jsnum \<Rightarrow> string" where
  "toFixed f NNaN = ''NaN''"
| "toFixed f NPosInf = ''Infinity''"
| "toFixed f NNegInf = ''-Infinity''"
| "toFixed f (NFin q) =
     (if 10 ^ 21 \<le> \<bar>q\<bar> then dec_int \<lfloor>q\<rfloor>
      else (if q < 0 then ''-'' else []) @
           fixed_digits f (nat \<lfloor>\<bar>q\<bar> * 10 ^ f + 1 / 2\<rfloor>))"

section \<open>The process and its surroundings\<close>

text \<open>
  What the file requires from elsewhere is a parameter of the model: the colour functions
  of \<^verbatim>\<open>./color\<close>, the package descriptor of \<^verbatim>\<open>./package\<close>, the version of the
  runtime, whether the error stream is a terminal, the working directory, the successive
  readings of the clock (\<^verbatim>\<open>new Date()\<close>), the error objects the runtime throws on its
  own, and the depth of call stack left to a recursion.
\<close>

text \<open>An error value as a callback or an \<^verbatim>\<open>error\<close> event delivers it: a string, or
  an object with its \<^verbatim>\<open>code\<close>, its \<^verbatim>\<open>stack\<close> and the text it prints as.\<close>

datatype js_err = ErrString string | ErrObject jsval jsval string

fun err_code :: "js_err \<Rightarrow> jsval" where
  "err_code (ErrString s) = JUndefined"
| "err_code (ErrObject c st t) = c"

fun err_stack :: "js_err \<Rightarrow> jsval" where
  "err_stack (ErrString s) = JUndefined"
| "err_stack (ErrObject c st t) = st"

fun err_truthy :: "js_err option \<Rightarrow> bool" where
  "err_truthy None = False"
| "err_truthy (Some (ErrString s)) = (s \<noteq> [])"
| "err_truthy (Some (ErrObject c st t)) = True"

record env =
  isTTY :: bool
  red :: "jsval \<Rightarrow> string"
  green :: "jsval \<Rightarrow> string"
  bold :: "jsval \<Rightarrow> string"
  meta_version :: string
  meta_bugs_url :: string
  process_version :: string
  cwd :: string
  clock :: "nat \<Rightarrow> int"
  type_error :: js_err
  range_error :: js_err
  stack_left :: nat

text \<open>The parsed command line: the result of \<^verbatim>\<open>nopt\<close>.\<close>

record options =
  opt_server :: bool
  opt_version :: bool
  opt_help :: bool
  opt_loglevel :: "string option"
  opt_debug :: bool
  opt_port :: "int option"
  opt_hub :: "string option"
  remain :: "string list"
  original :: "string list"

text \<open>What the process does to the outside, in order: lines on the console, raw writes
  to the error stream, and calls into the hub, the client and the line reader.\<close>

datatype effect =
    ConsoleError "jsval list"
  | ConsoleLog "jsval list"
  | StderrWrite string
  | HubNew "string option"
  | HubListen int
  | ClientConnect string
  | ClientGetAgents
  | CreateBatch string "string list"
  | RlCreate
  | RlQuestion string
  | RlClose
  | StdinDestroy

datatype connect_cb = ConnectToURL_cb string | CreateHub_cb

datatype hub_error_cb = CreateHub_rethrow | StartServer_handler

text \<open>
  The variable \<^verbatim>\<open>batchDetails\<close>. Its counters \<^verbatim>\<open>passed\<close> and \<^verbatim>\<open>failed\<close> add
  up what the agents report, which may be any value; \<^verbatim>\<open>currentIndex\<close> and
  \<^verbatim>\<open>total\<close>, like \<^verbatim>\<open>beats\<close> and the readings of the clock, are counted by the
  process itself: they are integers, far below \<open>2^53\<close> in any run, where the arithmetic of
  doubles is exact.
\<close>

record batchDetails =
  passed :: jsval
  failed :: jsval
  currentIndex :: int
  total :: int

text \<open>
  The state of the process: what it has done (\<open>trace\<close>), whether it has exited and with
  which status, how often it has read the clock, the variable \<^verbatim>\<open>url\<close> of
  \<^verbatim>\<open>runBatch\<close>, the callbacks that are registered, and the variables of
  \<^verbatim>\<open>submitBatch\<close>.
\<close>

record proc =
  trace :: "effect list"
  exit_status :: "int option"
  ticks :: nat
  url :: string
  connect_pending :: "connect_cb option"
  hub_error_once :: "hub_error_cb option"
  hub_listen_pending :: bool
  getAgents_pending :: bool
  client_listeners :: bool
  question_pending :: bool
  batch_listeners :: bool
  timeStart :: int
  beats :: int
  spinIndex :: nat
  details :: batchDetails

definition good :: string where
  "good = [CHR 0xE2, CHR 0x9C, CHR 0x94]"

definition bad :: string where
  "bad = [CHR 0xE2, CHR 0x9C, CHR 0x96]"

definition do_effect :: "effect \<Rightarrow> proc \<Rightarrow> proc" where
  "do_effect e s = s\<lparr>trace := trace s @ [e]\<rparr>"

definition error :: "jsval list \<Rightarrow> proc \<Rightarrow> proc" where
  "error args s = do_effect (ConsoleError args) s"

text \<open>\<^verbatim>\<open>panic\<close> prints and exits with status 1; nothing of the process runs after it.\<close>

definition panic :: "jsval list \<Rightarrow> proc \<Rightarrow> proc" where
  "panic args s = (error args s)\<lparr>exit_status := Some 1\<rparr>"

definition puts :: "jsval list \<Rightarrow> proc \<Rightarrow> proc" where
  "puts args s = do_effect (ConsoleLog args) s"

definition process_exit :: "int \<Rightarrow> proc \<Rightarrow> proc" where
  "process_exit c s = s\<lparr>exit_status := Some c\<rparr>"

text \<open>Reading the clock.\<close>

definition now :: "env \<Rightarrow> proc \<Rightarrow> int" where
  "now e s = clock e (ticks s)"

definition tick :: "proc \<Rightarrow> proc" where
  "tick s = s\<lparr>ticks := Suc (ticks s)\<rparr>"

subsection \<open>setupProcess: the handler of uncaught exceptions\<close>

definition join_nl :: "string list \<Rightarrow> string" where
  "join_nl ls = (case ls of [] \<Rightarrow> [] | l # r \<Rightarrow> l @ concat (map (\<lambda>x. CHR 0x0A # x) r))"

definition uncaught_text :: "js_err \<Rightarrow> string" where
  "uncaught_text err =
     (case err of
        ErrString s \<Rightarrow> s
      | ErrObject c st t \<Rightarrow> (if truthy st then to_str st else t))"

definition uncaught_message :: "env \<Rightarrow> js_err \<Rightarrow> string" where
  "uncaught_message e err =
     (if isTTY e then
        join_nl [red e (JStr (bad @ '' Whoops!'')) @ '' '' @ uncaught_text err, [],
          ''If you believe this is a bug in Yeti, please report it.'',
          ''    '' @ bold e (JStr (meta_bugs_url e)),
          ''    Yeti v'' @ meta_version e,
          ''    Node.js '' @ process_version e]
      else
        join_nl [''Yeti v'' @ meta_version e @ '' '' @ ''(Node.js '' @ process_version e @
                   '') Error: '' @ uncaught_text err,
          ''Report this bug at '' @ meta_bugs_url e])"

text \<open>A \<^verbatim>\<open>throw\<close> that no caller catches reaches the handler, which panics.\<close>

definition uncaught :: "env \<Rightarrow> js_err \<Rightarrow> proc \<Rightarrow> proc" where
  "uncaught e err s = panic [JStr (uncaught_message e err)] s"

section \<open>submitBatch\<close>

subsection \<open>displayVerboseResult\<close>

text \<open>
  The state of one call of \<^verbatim>\<open>displayVerboseResult\<close>: its variable
  \<^verbatim>\<open>lastSuite\<close>, the argument lists of the calls of \<^verbatim>\<open>error\<close> it has made, and
  the exception that has ended it, if any. \<open>lastSuiteKey\<close> is the key of the suite from
  whose \<^verbatim>\<open>name\<close> the value of \<^verbatim>\<open>lastSuite\<close> was read: it tells which object
  \<^verbatim>\<open>lastSuite\<close> is, when it is one. The variables \<^verbatim>\<open>suite\<close> and \<^verbatim>\<open>test\<close>
  of the enclosing function, which the three inner functions read, are parameters here;
  \<^verbatim>\<open>suite\<close> comes with its key in \<^verbatim>\<open>result\<close>.
\<close>

record walker =
  lastSuite :: jsval
  lastSuiteKey :: string
  printed :: "jsval list list"
  raised :: "js_err option"

definition say :: "jsval list \<Rightarrow> walker \<Rightarrow> walker" where
  "say args w = w\<lparr>printed := printed w @ [args]\<rparr>"

definition throw :: "js_err \<Rightarrow> walker \<Rightarrow> walker" where
  "throw err w = w\<lparr>raised := Some err\<rparr>"

text \<open>A loop over the properties of a value; an exception ends it.\<close>

definition for_each :: "(string \<times> jsval \<Rightarrow> walker \<Rightarrow> walker) \<Rightarrow> (string \<times> jsval) list \<Rightarrow> walker \<Rightarrow> walker" where
  "for_each body ps w = fold (\<lambda>p w. if raised w = None then body p w else w) ps w"

text \<open>
  \<^verbatim>\<open>lastSuite !== suite.name\<close>, for the suite at key \<open>k\<close> whose name is \<open>sname\<close>. Two
  objects are the same when they are one object: the name of the same suite. Values that are
  not objects are compared as values (\<open>NaN\<close> differs from itself).
\<close>

definition differs :: "walker \<Rightarrow> string \<Rightarrow> jsval \<Rightarrow> bool" where
  "differs w k sname =
     (case lastSuite w of
        JObj a \<Rightarrow> (case sname of JObj b \<Rightarrow> lastSuiteKey w \<noteq> k | _ \<Rightarrow> True)
      | JNaN \<Rightarrow> True
      | v \<Rightarrow> v \<noteq> sname)"

text \<open>
  \<^verbatim>\<open>reportTestError(test)\<close>. Any \<^verbatim>\<open>message\<close> that is not a string has no
  method \<^verbatim>\<open>split\<close>, which is a \<^verbatim>\<open>TypeError\<close>.
\<close>

definition reportTestError :: "env \<Rightarrow> string \<times> jsval \<Rightarrow> jsval \<Rightarrow> walker \<Rightarrow> walker" where
  "reportTestError e suite test w =
     (case js_get test ''result'' of
        None \<Rightarrow> throw (type_error e) w
      | Some r \<Rightarrow>
          if JStr ''fail'' = r then
            (case js_get (snd suite) ''name'' of
               None \<Rightarrow> throw (type_error e) w
             | Some sname \<Rightarrow>
                 (let w1 = (if \<not> truthy (lastSuite w) \<or> differs w (fst suite) sname
                            then (say [JStr ''   in'', JStr (bold e sname)] w)
                                   \<lparr>lastSuite := sname, lastSuiteKey := fst suite\<rparr>
                            else w)
                  in case (js_get test ''message'', js_get test ''name'') of
                       (Some (JStr m), Some tname) \<Rightarrow>
                         (let msg = split_nl m
                          in fold (\<lambda>l. say [JStr (''       '' @ l)]) (tl msg)
                               (say [JStr ''    '', JStr (bold e (JStr (red e tname)) @ '':''),
                                     JStr (hd msg)] w1))
                     | _ \<Rightarrow> throw (type_error e) w1))
          else w)"

text \<open>\<^verbatim>\<open>hasResults(o)\<close> does not look at its argument: it tests the variable
  \<^verbatim>\<open>test\<close> of the enclosing function.\<close>

definition hasResults :: "jsval \<Rightarrow> jsval \<Rightarrow> bool option" where
  "hasResults test o' =
     (case js_in ''passed'' test of
        None \<Rightarrow> None
      | Some a \<Rightarrow> if \<not> a then Some False
          else (case js_in ''failed'' test of
                  None \<Rightarrow> None
                | Some b \<Rightarrow> if \<not> b then Some False else js_in ''type'' test))"

text \<open>
  \<^verbatim>\<open>walk(o)\<close> calls itself on the properties of \<open>o\<close>; the first argument counts the
  calls the stack still has room for, and a call beyond it is the \<^verbatim>\<open>RangeError\<close> of the
  runtime.
\<close>

definition walk_body :: "env \<Rightarrow> string \<times> jsval \<Rightarrow> jsval \<Rightarrow> (jsval \<Rightarrow> walker \<Rightarrow> walker) \<Rightarrow> string \<times> jsval \<Rightarrow> walker \<Rightarrow> walker" where
  "walk_body e suite test recurse p w =
     (case hasResults test (snd p) of
        None \<Rightarrow> throw (type_error e) w
      | Some True \<Rightarrow> reportTestError e suite (snd p) w
      | Some False \<Rightarrow> recurse (snd p) w)"

primrec walk :: "env \<Rightarrow> string \<times> jsval \<Rightarrow> jsval \<Rightarrow> nat \<Rightarrow> jsval \<Rightarrow> walker \<Rightarrow> walker" where
  "walk e suite test 0 =
     (\<lambda>o' w. for_each (walk_body e suite test (\<lambda>v. throw (range_error e))) (for_in o') w)"
| "walk e suite test (Suc n) =
     (\<lambda>o' w. for_each (walk_body e suite test (walk e suite test n)) (for_in o') w)"

definition visit_test :: "env \<Rightarrow> string \<times> jsval \<Rightarrow> string \<times> jsval \<Rightarrow> walker \<Rightarrow> walker" where
  "visit_test e suite p w =
     (let test = snd p in
      if typeof_object test then
        (case hasResults test test of
           None \<Rightarrow> throw (type_error e) w
         | Some True \<Rightarrow> walk e suite test (stack_left e) test w
         | Some False \<Rightarrow> reportTestError e suite test w)
      else w)"

definition visit_suite :: "env \<Rightarrow> string \<times> jsval \<Rightarrow> walker \<Rightarrow> walker" where
  "visit_suite e p w =
     (let suite = snd p in
      if typeof_object suite then
        (case js_get suite ''failed'' of
           None \<Rightarrow> throw (type_error e) w
         | Some f \<Rightarrow> if truthy f then for_each (visit_test e p) (for_in suite) w else w)
      else w)"

definition displayVerboseResult :: "env \<Rightarrow> jsval \<Rightarrow> walker" where
  "displayVerboseResult e result =
     (let w = for_each (visit_suite e) (for_in result)
                \<lparr>lastSuite = JUndefined, lastSuiteKey = [], printed = [], raised = None\<rparr>
      in if raised w = None then say [JStr []] w else w)"

subsection \<open>updateProgress\<close>

definition spin :: "string list" where
  "spin = [''/'', ''|'', [CHR 0x5C], ''-'']"

text \<open>\<^verbatim>\<open>spin[i]\<close>; an index outside the array reads \<^verbatim>\<open>undefined\<close>.\<close>

definition spin_at :: "nat \<Rightarrow> string" where
  "spin_at i = (if i < length spin then spin ! i else ''undefined'')"

definition percent_text :: "int \<Rightarrow> int \<Rightarrow> string" where
  "percent_text current tot = toFixed 0 (js_mul (js_div current tot) 100)"

definition progress_line :: "env \<Rightarrow> proc \<Rightarrow> string" where
  "progress_line e s =
     (let current = currentIndex (details s);
          tot = total (details s);
          tps = js_div (beats s * 1000) (now e s - timeStart s)
      in ''Testing... '' @ spin_at (spinIndex s) @ '' '' @ percent_text current tot @
         ''% complete ('' @ dec_int current @ ''/'' @ dec_int tot @ '') '' @
         toFixed 2 tps @ '' tests/sec '')"

definition updateProgress :: "env \<Rightarrow> proc \<Rightarrow> proc" where
  "updateProgress e s =
     (let line = progress_line e s;
          s1 = do_effect (StderrWrite ([CHR 0x0D, CHR 0x1B] @ ''[2K'')) (tick s);
          s2 = do_effect (StderrWrite line) s1;
          i = spinIndex s2 + 1
      in s2\<lparr>spinIndex := (if i > length spin - 1 then 0 else i)\<rparr>)"

subsection \<open>The handlers of the batch events\<close>

definition on_agentResult :: "env \<Rightarrow> string \<Rightarrow> jsval \<Rightarrow> proc \<Rightarrow> proc" where
  "on_agentResult e agent d s =
     (case (js_get d ''passed'', js_get d ''failed'', js_get d ''name'') of
        (Some p, Some f, Some nm) \<Rightarrow>
          (let icon = (if truthy f then bad else good);
               iconColor = (if truthy f then red e else green e);
               s1 = s\<lparr>details := (details s)
                       \<lparr>currentIndex := currentIndex (details s) + 1,
                        passed := js_add (passed (details s)) p,
                        failed := js_add (failed (details s)) f\<rparr>\<rparr>
           in if truthy f then
                (let s2 = error [JStr (iconColor (JStr icon)), JStr (bold e nm), JStr ''on'',
                                 JStr agent] s1;
                     w = displayVerboseResult e d;
                     s3 = s2\<lparr>trace := trace s2 @ map ConsoleError (printed w)\<rparr>
                 in case raised w of None \<Rightarrow> s3 | Some err \<Rightarrow> uncaught e err s3)
              else s1)
      | _ \<Rightarrow> uncaught e (type_error e) s)"

definition on_agentScriptError :: "env \<Rightarrow> string \<Rightarrow> jsval \<Rightarrow> proc \<Rightarrow> proc" where
  "on_agentScriptError e agent d s =
     (case (js_get d ''message'', js_get d ''url'', js_get d ''line'') of
        (Some m, Some u, Some l) \<Rightarrow>
          error [JStr (''  User-Agent: '' @ agent)]
            (error [JStr (''  Line: '' @ to_str l)]
              (error [JStr (''  URL: '' @ to_str u)]
                (error [JStr (red e (JStr (bad @ '' Script error'')) @ '': '' @ to_str m)] s)))
      | _ \<Rightarrow> uncaught e (type_error e) s)"

definition on_agentError :: "env \<Rightarrow> string \<Rightarrow> jsval \<Rightarrow> proc \<Rightarrow> proc" where
  "on_agentError e agent d s =
     (case js_get d ''message'' of
        Some m \<Rightarrow>
          error [JStr (''  User-Agent: '' @ agent)]
            (error [JStr (red e (JStr (bad @ '' Error'')) @ '': '' @ to_str m)] s)
      | None \<Rightarrow> uncaught e (type_error e) s)"

definition on_agentComplete :: "string \<Rightarrow> proc \<Rightarrow> proc" where
  "on_agentComplete agent s = error [JStr good, JStr ''Agent completed:'', JStr agent] s"

definition on_agentProgress :: "env \<Rightarrow> proc \<Rightarrow> proc" where
  "on_agentProgress e s = updateProgress e s"

definition on_agentBeat :: "env \<Rightarrow> proc \<Rightarrow> proc" where
  "on_agentBeat e s = updateProgress e (s\<lparr>beats := beats s + 1\<rparr>)"

text \<open>\<^verbatim>\<open>agents.join(", ")\<close>.\<close>

definition join_comma :: "string list \<Rightarrow> string" where
  "join_comma ls = (case ls of [] \<Rightarrow> [] | l # r \<Rightarrow> l @ concat (map (\<lambda>x. '', '' @ x) r))"

definition on_dispatch :: "string list \<Rightarrow> proc \<Rightarrow> proc" where
  "on_dispatch agents s =
     (if length agents = 0 then panic [JStr bad, JStr ''No browsers connected, exiting.''] s
      else (let s1 = error [JStr good, JStr ''Testing started on'', JStr (join_comma agents)] s
            in s1\<lparr>details := (details s1)
                   \<lparr>total := total (details s1) * int (length agents)\<rparr>\<rparr>))"

definition on_complete :: "env \<Rightarrow> proc \<Rightarrow> proc" where
  "on_complete e s =
     (let s1 = updateProgress e s;
          duration = now e s1 - timeStart s1;
          s2 = tick s1;
          tot = js_add (passed (details s2)) (failed (details s2));
          durationString = ''('' @ dec_int duration @ ''ms)''
      in if truthy (failed (details s2)) then
           process_exit 1
             (error [JStr (red e (JStr ''Failures'') @ '':''), failed (details s2), JStr ''of'',
                     tot, JStr ''tests failed.'', JStr durationString] s2)
         else
           process_exit 0
             (error [JStr (green e (js_add tot (JStr '' tests passed!''))),
                     JStr durationString] s2))"

text \<open>\<^verbatim>\<open>submitBatch(client, tests)\<close>: the batch is created, the variables are
  initialised and the handlers registered.\<close>

definition submitBatch :: "env \<Rightarrow> string list \<Rightarrow> proc \<Rightarrow> proc" where
  "submitBatch e tests s =
     (let s1 = do_effect (CreateBatch (cwd e) tests) s;
          t = now e s1;
          s2 = tick s1
      in s2\<lparr>timeStart := t, beats := 0, spinIndex := 0,
            details := \<lparr>passed = JNum 0, failed = JNum 0, currentIndex = 0,
                        total = int (length tests)\<rparr>,
            batch_listeners := True\<rparr>)"

text \<open>The events a batch emits, and their delivery: to a process that has not exited and
  has registered the handlers.\<close>

datatype batch_event =
    AgentResult string jsval
  | AgentScriptError string jsval
  | AgentError string jsval
  | AgentComplete string
  | AgentProgress string jsval
  | AgentBeat string
  | Dispatch "string list"
  | Complete

fun handle :: "env \<Rightarrow> batch_event \<Rightarrow> proc \<Rightarrow> proc" where
  "handle e (AgentResult agent d) s = on_agentResult e agent d s"
| "handle e (AgentScriptError agent d) s = on_agentScriptError e agent d s"
| "handle e (AgentError agent d) s = on_agentError e agent d s"
| "handle e (AgentComplete agent) s = on_agentComplete agent s"
| "handle e (AgentProgress agent d) s = on_agentProgress e s"
| "handle e (AgentBeat agent) s = on_agentBeat e s"
| "handle e (Dispatch agents) s = on_dispatch agents s"
| "handle e Complete s = on_complete e s"

definition batch_emit :: "env \<Rightarrow> batch_event \<Rightarrow> proc \<Rightarrow> proc" where
  "batch_emit e ev s =
     (if exit_status s = None \<and> batch_listeners s then handle e ev s else s)"

definition batch_run :: "env \<Rightarrow> batch_event list \<Rightarrow> proc \<Rightarrow> proc" where
  "batch_run e evs s = fold (batch_emit e) evs s"

section \<open>runBatch, startServer and route\<close>

text \<open>\<^verbatim>\<open>options.port || 9000\<close>: a missing port and the port 0 are both replaced.\<close>

definition port_of :: "options \<Rightarrow> int" where
  "port_of opts = (case opt_port opts of None \<Rightarrow> 9000 | Some p \<Rightarrow> if p = 0 then 9000 else p)"

text \<open>\<^verbatim>\<open>options.hub\<close> as a condition: present and not the empty string.\<close>

definition hub_given :: "options \<Rightarrow> bool" where
  "hub_given opts = (case opt_hub opts of None \<Rightarrow> False | Some u \<Rightarrow> u \<noteq> [])"

subsection \<open>prepareTests\<close>

text \<open>\<^verbatim>\<open>client.emit("agentConnect", agent)\<close> runs the listener that
  \<^verbatim>\<open>prepareTests\<close> has registered.\<close>

definition on_agentConnect :: "string \<Rightarrow> proc \<Rightarrow> proc" where
  "on_agentConnect agent s =
     (if client_listeners s then error [JStr ''  Agent connected:'', JStr agent] s else s)"

definition on_agentDisconnect :: "string \<Rightarrow> proc \<Rightarrow> proc" where
  "on_agentDisconnect agent s =
     (if client_listeners s then error [JStr ''  Agent disconnected:'', JStr agent] s else s)"

definition prepareTests :: "proc \<Rightarrow> proc" where
  "prepareTests s =
     (do_effect ClientGetAgents s)\<lparr>getAgents_pending := True, client_listeners := True\<rparr>"

text \<open>The callback of \<^verbatim>\<open>client.getAgents\<close>.\<close>

definition on_getAgents :: "env \<Rightarrow> options \<Rightarrow> js_err option \<Rightarrow> string list \<Rightarrow> proc \<Rightarrow> proc" where
  "on_getAgents e opts err agents s =
     (if err_truthy err then uncaught e (the err) s
      else
        (let s1 = fold on_agentConnect agents s in
         if length agents > 0 then submitBatch e (remain opts) s1
         else if \<not> isTTY e then
           uncaught e (ErrString ''Unable to connect to Hub or start an interactive session.'') s1
         else
           (do_effect (RlQuestion (''When ready, press Enter to begin testing.'' @ [CHR 0x0A]))
              (error [JStr (''Waiting for agents to connect at '' @ url s1 @ ''.'')]
                 (do_effect RlCreate s1)))
           \<lparr>question_pending := True\<rparr>))"

text \<open>The callback of \<^verbatim>\<open>rl.question\<close>: the operator has pressed Enter.\<close>

definition on_answer :: "env \<Rightarrow> options \<Rightarrow> proc \<Rightarrow> proc" where
  "on_answer e opts s =
     submitBatch e (remain opts) (do_effect StdinDestroy (do_effect RlClose s))"

subsection \<open>createHub and connectToURL\<close>

definition createHub :: "options \<Rightarrow> proc \<Rightarrow> proc" where
  "createHub opts s =
     (let u = ''http://localhost:'' @ dec_int (port_of opts);
          s1 = error [JStr (''Creating a Hub at '' @ u)] (s\<lparr>url := u\<rparr>);
          s2 = do_effect (HubNew (opt_loglevel opts)) s1;
          s3 = do_effect (HubListen (port_of opts)) s2;
          s4 = s3\<lparr>hub_error_once := Some CreateHub_rethrow\<rparr>;
          s5 = do_effect (ClientConnect u) s4
      in s5\<lparr>connect_pending := Some CreateHub_cb\<rparr>)"

definition connectToURL :: "string \<Rightarrow> proc \<Rightarrow> proc" where
  "connectToURL u s = (do_effect (ClientConnect u) s)\<lparr>connect_pending := Some (ConnectToURL_cb u)\<rparr>"

text \<open>The callbacks of \<^verbatim>\<open>client.connect\<close>.\<close>

definition on_connect :: "env \<Rightarrow> options \<Rightarrow> connect_cb \<Rightarrow> js_err option \<Rightarrow> proc \<Rightarrow> proc" where
  "on_connect e opts cb err s =
     (case cb of
        ConnectToURL_cb u \<Rightarrow>
          if err_truthy err then
            createHub opts
              (if hub_given opts
               then error [JStr ''Unable to connect to Hub at'', JStr u, JStr ''with'',
                           err_stack (the err)] s
               else s)
          else prepareTests (error [JStr (''Connected to '' @ u)] s)
      | CreateHub_cb \<Rightarrow>
          if err_truthy err then uncaught e (the err) s else prepareTests s)"

definition runBatch :: "options \<Rightarrow> proc \<Rightarrow> proc" where
  "runBatch opts s =
     (let u = (if hub_given opts then the (opt_hub opts) else ''http://localhost:9000'')
      in connectToURL u (s\<lparr>url := u\<rparr>))"

subsection \<open>startServer\<close>

definition startServer :: "options \<Rightarrow> proc \<Rightarrow> proc" where
  "startServer opts s =
     (let s1 = do_effect (HubNew (opt_loglevel opts)) s;
          s2 = s1\<lparr>hub_error_once := Some StartServer_handler\<rparr>;
          s3 = do_effect (HubListen (port_of opts)) s2
      in s3\<lparr>hub_listen_pending := True\<rparr>)"

text \<open>The listeners of the hub's \<^verbatim>\<open>error\<close> event.\<close>

definition on_hub_error :: "env \<Rightarrow> options \<Rightarrow> hub_error_cb \<Rightarrow> js_err \<Rightarrow> proc \<Rightarrow> proc" where
  "on_hub_error e opts cb err s =
     (case cb of
        CreateHub_rethrow \<Rightarrow> uncaught e err s
      | StartServer_handler \<Rightarrow>
          if err_code err = JStr ''EADDRINUSE'' then
            panic [JStr ''Unable to start the Hub because port %s is in use.'',
                   JNum (port_of opts)] s
          else uncaught e err s)"

definition on_hub_listening :: "options \<Rightarrow> proc \<Rightarrow> proc" where
  "on_hub_listening opts s =
     error [JStr ''Yeti Hub listening on port %s.'', JNum (port_of opts)] s"

subsection \<open>route\<close>

definition usage :: "string \<Rightarrow> string" where
  "usage argv1 = ''usage: '' @ argv1 @
     '' [--version | -v] [--server | -s] [--port=<n>]'' @
     '' [--hub=<url>]'' @
     '' [--help] [--] [<HTML files>]''"

text \<open>The process before \<^verbatim>\<open>route\<close> runs.\<close>

definition start :: proc where
  "start = \<lparr>trace = [], exit_status = None, ticks = 0, url = [],
     connect_pending = None, hub_error_once = None, hub_listen_pending = False,
     getAgents_pending = False, client_listeners = False, question_pending = False,
     batch_listeners = False, timeStart = 0, beats = 0, spinIndex = 0,
     details = \<lparr>passed = JNum 0, failed = JNum 0, currentIndex = 0, total = 0\<rparr>\<rparr>"

definition route :: "env \<Rightarrow> string \<Rightarrow> options \<Rightarrow> proc" where
  "route e argv1 opts =
     (if length (remain opts) \<noteq> 0 then
        runBatch opts
          (if opt_server opts then error [JStr ''Ignoring --server option.''] start else start)
      else if opt_server opts then startServer opts start
      else if opt_version opts \<or> (original opts \<noteq> [] \<and> hd (original opts) = ''-v'') then
        puts [JStr (meta_version e)] start
      else if opt_help opts then puts [JStr (usage argv1)] start
      else panic [JStr (usage argv1 @ [CHR 0x0A] @ ''No files specified. '' @
                        ''To launch the Yeti server, specify --server.'')] start)"

subsection \<open>The events of a run\<close>

text \<open>
  After \<^verbatim>\<open>route\<close> returns, the process runs its callbacks as the hub, the client and
  the operator call them. A callback runs only while the process has not exited and only
  once it is registered; the callbacks of \<^verbatim>\<open>connect\<close>, \<^verbatim>\<open>getAgents\<close>,
  \<^verbatim>\<open>question\<close>, \<^verbatim>\<open>listen\<close> and \<^verbatim>\<open>once\<close> run once. The hub and the
  client are not part of the file: they are taken to call back later, from the event loop
  (never from inside the call that registers the callback), and an exception that leaves a
  callback is taken to reach the handler of uncaught exceptions.
\<close>

datatype event =
    ConnectDone "js_err option"
  | HubError js_err
  | HubListening
  | AgentsListed "js_err option" "string list"
  | AgentConnect string
  | AgentDisconnect string
  | Answer
  | Batch batch_event

fun callback :: "env \<Rightarrow> options \<Rightarrow> event \<Rightarrow> proc \<Rightarrow> proc" where
  "callback e opts (ConnectDone err) s =
     (case connect_pending s of
        None \<Rightarrow> s
      | Some cb \<Rightarrow> on_connect e opts cb err (s\<lparr>connect_pending := None\<rparr>))"
| "callback e opts (HubError err) s =
     (case hub_error_once s of
        None \<Rightarrow> s
      | Some cb \<Rightarrow> on_hub_error e opts cb err (s\<lparr>hub_error_once := None\<rparr>))"
| "callback e opts HubListening s =
     (if hub_listen_pending s then on_hub_listening opts (s\<lparr>hub_listen_pending := False\<rparr>)
      else s)"
| "callback e opts (AgentsListed err agents) s =
     (if getAgents_pending s then on_getAgents e opts err agents (s\<lparr>getAgents_pending := False\<rparr>)
      else s)"
| "callback e opts (AgentConnect agent) s = on_agentConnect agent s"
| "callback e opts (AgentDisconnect agent) s = on_agentDisconnect agent s"
| "callback e opts Answer s =
     (if question_pending s then on_answer e opts (s\<lparr>question_pending := False\<rparr>) else s)"
| "callback e opts (Batch ev) s = batch_emit e ev s"

definition deliver :: "env \<Rightarrow> options \<Rightarrow> event \<Rightarrow> proc \<Rightarrow> proc" where
  "deliver e opts ev s = (if exit_status s = None then callback e opts ev s else s)"

definition run :: "env \<Rightarrow> options \<Rightarrow> event list \<Rightarrow> proc \<Rightarrow> proc" where
  "run e opts evs s = fold (deliver e opts) evs s"

section \<open>Notions used in the statements\<close>

text \<open>
  The counts an \<^verbatim>\<open>agentResult\<close> event carries, when both are numbers; every other
  event carries none.
\<close>

definition numeric_counts :: "batch_event \<Rightarrow> bool" where
  "numeric_counts ev =
     (case ev of
        AgentResult agent d \<Rightarrow>
          (case (js_get d ''passed'', js_get d ''failed'') of
             (Some (JNum p), Some (JNum f)) \<Rightarrow> True
           | _ \<Rightarrow> False)
      | _ \<Rightarrow> True)"

definition passed_count :: "batch_event \<Rightarrow> int" where
  "passed_count ev =
     (case ev of
        AgentResult agent d \<Rightarrow> (case js_get d ''passed'' of Some (JNum p) \<Rightarrow> p | _ \<Rightarrow> 0)
      | _ \<Rightarrow> 0)"

definition failed_count :: "batch_event \<Rightarrow> int" where
  "failed_count ev =
     (case ev of
        AgentResult agent d \<Rightarrow> (case js_get d ''failed'' of Some (JNum f) \<Rightarrow> f | _ \<Rightarrow> 0)
      | _ \<Rightarrow> 0)"

definition is_dispatch :: "batch_event \<Rightarrow> bool" where
  "is_dispatch ev = (case ev of Dispatch agents \<Rightarrow> True | _ \<Rightarrow> False)"

text \<open>
  The events whose handler ends the process, whatever the state it runs in: the terminal
  event, a dispatch to no agent, and a payload on which the handler throws.
\<close>

definition stops :: "env \<Rightarrow> batch_event \<Rightarrow> bool" where
  "stops e ev =
     (case ev of
        AgentResult agent d \<Rightarrow>
          (case js_get d ''failed'' of
             None \<Rightarrow> True
           | Some f \<Rightarrow> truthy f \<and> raised (displayVerboseResult e d) \<noteq> None)
      | AgentScriptError agent d \<Rightarrow> js_get d ''message'' = None
      | AgentError agent d \<Rightarrow> js_get d ''message'' = None
      | Dispatch agents \<Rightarrow> agents = []
      | Complete \<Rightarrow> True
      | _ \<Rightarrow> False)"

text \<open>
  Nodes of a result tree that \<^verbatim>\<open>displayVerboseResult\<close> passes over without output: a
  node below a test case that is not \<^verbatim>\<open>null\<close> and whose \<^verbatim>\<open>result\<close> is not
  \<^verbatim>\<open>"fail"\<close>; a node below a suite that is such a node and has only such nodes below
  it; a node below the report that has only such nodes below it.
\<close>

definition not_failing :: "jsval \<Rightarrow> bool" where
  "not_failing v = (case js_get v ''result'' of None \<Rightarrow> False | Some r \<Rightarrow> r \<noteq> JStr ''fail'')"

definition quiet_test :: "jsval \<Rightarrow> bool" where
  "quiet_test t =
     (case t of
        JObj ps \<Rightarrow> not_failing t \<and> list_all (\<lambda>p. not_failing (snd p)) ps
      | JNull \<Rightarrow> False
      | _ \<Rightarrow> True)"

definition quiet_suite :: "jsval \<Rightarrow> bool" where
  "quiet_suite s =
     (case s of
        JObj qs \<Rightarrow> list_all (\<lambda>p. quiet_test (snd p)) qs
      | JNull \<Rightarrow> False
      | _ \<Rightarrow> True)"

text \<open>The lines printed for one failing test: the suite, the test with the first line of
  its message, and the remaining lines of the message.\<close>

definition failure_block :: "env \<Rightarrow> jsval \<Rightarrow> jsval \<Rightarrow> string \<Rightarrow> jsval list list" where
  "failure_block e sname tname m =
     [[JStr ''   in'', JStr (bold e sname)],
      [JStr ''    '', JStr (bold e (JStr (red e tname)) @ '':''), JStr (hd (split_nl m))]] @
     map (\<lambda>l. [JStr (''       '' @ l)]) (tl (split_nl m))"

text \<open>Effects by kind, and the process before any batch exists: no handler of a batch
  registered, no progress line written, no batch created.\<close>

definition is_render :: "effect \<Rightarrow> bool" where
  "is_render x = (case x of StderrWrite l \<Rightarrow> True | _ \<Rightarrow> False)"

definition is_submit :: "effect \<Rightarrow> bool" where
  "is_submit x = (case x of CreateBatch d t \<Rightarrow> True | _ \<Rightarrow> False)"

definition idle :: "proc \<Rightarrow> bool" where
  "idle s = (\<not> batch_listeners s \<and> list_all (\<lambda>x. \<not> is_render x \<and> \<not> is_submit x) (trace s))"

text \<open>The callbacks of \<^verbatim>\<open>connect\<close>, \<^verbatim>\<open>getAgents\<close> and \<^verbatim>\<open>question\<close> are
  pending one at a time, and only before the batch is submitted.\<close>

definition phased :: "proc \<Rightarrow> bool" where
  "phased s =
     ((connect_pending s \<noteq> None \<longrightarrow> \<not> getAgents_pending s \<and> \<not> question_pending s) \<and>
      (getAgents_pending s \<longrightarrow> \<not> question_pending s) \<and>
      (connect_pending s \<noteq> None \<or> getAgents_pending s \<or> question_pending s \<longrightarrow> idle s))"

definition no_agents_msg :: string where
  "no_agents_msg = ''Unable to connect to Hub or start an interactive session.''"


section \<open>Example data\<close>

definition env0 :: env where
  "env0 = \<lparr>isTTY = False, red = to_str, green = to_str, bold = to_str,
     meta_version = ''0.1.0'', meta_bugs_url = ''http://bugs.example'',
     process_version = ''v0.6.0'', cwd = ''/tmp'', clock = (\<lambda>n. 1000 + int n),
     type_error = ErrObject JUndefined (JStr ''TypeError'') ''TypeError'',
     range_error = ErrObject JUndefined (JStr ''RangeError'') ''RangeError'',
     stack_left = 100\<rparr>"

definition opts0 :: options where
  "opts0 = \<lparr>opt_server = False, opt_version = False, opt_help = False, opt_loglevel = None,
     opt_debug = False, opt_port = None, opt_hub = None, remain = [''a.html''],
     original = [''a.html'']\<rparr>"

definition opts_server :: options where
  "opts_server = \<lparr>opt_server = True, opt_version = False, opt_help = False,
     opt_loglevel = None, opt_debug = False, opt_port = Some 8090, opt_hub = None, remain = [],
     original = [''--server'', ''--port'', ''8090'']\<rparr>"

definition err_refused :: js_err where
  "err_refused = ErrObject (JStr ''ECONNREFUSED'') (JStr ''Error: connect ECONNREFUSED'')
     ''Error: connect ECONNREFUSED''"

definition err_inuse :: js_err where
  "err_inuse = ErrObject (JStr ''EADDRINUSE'') (JStr ''Error: listen EADDRINUSE'')
     ''Error: listen EADDRINUSE''"

definition leaf_ok :: jsval where
  "leaf_ok = JObj [(''result'', JStr ''pass''), (''message'', JStr ''Test passed''),
     (''name'', JStr ''testOk''), (''type'', JStr ''test'')]"

definition leaf_bad :: jsval where
  "leaf_bad = JObj [(''result'', JStr ''fail''),
     (''message'', JStr (''Expected 1'' @ [CHR 0x0A] @ ''Actual 2'')),
     (''name'', JStr ''testBad''), (''type'', JStr ''test'')]"

definition case_inner :: jsval where
  "case_inner = JObj [(''passed'', JNum 1), (''failed'', JNum 1), (''name'', JStr ''Inner''),
     (''type'', JStr ''testcase''), (''testOk'', leaf_ok), (''testBad'', leaf_bad)]"

definition suite_outer :: jsval where
  "suite_outer = JObj [(''passed'', JNum 1), (''failed'', JNum 1), (''name'', JStr ''Outer''),
     (''type'', JStr ''testsuite''), (''Inner'', case_inner)]"

definition result_fail :: jsval where
  "result_fail = JObj [(''passed'', JNum 1), (''failed'', JNum 1), (''name'', JStr ''report''),
     (''type'', JStr ''report''), (''Outer'', suite_outer)]"

definition result_pass :: jsval where
  "result_pass = JObj [(''passed'', JNum 2), (''failed'', JNum 0), (''name'', JStr ''report''),
     (''type'', JStr ''report'')]"

definition plain_inner :: jsval where
  "plain_inner = JObj [(''testBad'', leaf_bad)]"

definition plain_outer :: jsval where
  "plain_outer = JObj [(''Inner'', plain_inner)]"

definition unmarked_outer :: jsval where
  "unmarked_outer =
     JObj [(''failed'', JNum 1), (''name'', JStr ''Outer''), (''Inner'', plain_inner)]"

definition tree_plain :: jsval where
  "tree_plain = JObj [(''passed'', JNum 0), (''failed'', JNum 1), (''name'', JStr ''report''),
     (''Outer'', plain_outer)]"

definition tree_unmarked :: jsval where
  "tree_unmarked = JObj [(''passed'', JNum 0), (''failed'', JNum 1), (''name'', JStr ''report''),
     (''Outer'', unmarked_outer)]"

definition walker0 :: walker where
  "walker0 = \<lparr>lastSuite = JUndefined, lastSuiteKey = [], printed = [], raised = None\<rparr>"

definition counts_result :: "int \<Rightarrow> jsval" where
  "counts_result p = JObj [(''passed'', JNum p), (''failed'', JNum 0), (''name'', JStr ''suite'')]"

definition events_big :: "batch_event list" where
  "events_big = [AgentResult ''ua1'' (counts_result (2 ^ 53)),
     AgentResult ''ua2'' (counts_result 1), AgentResult ''ua3'' (counts_result 1)]"

definition events_big' :: "batch_event list" where
  "events_big' = [AgentResult ''ua2'' (counts_result 1), AgentResult ''ua3'' (counts_result 1),
     AgentResult ''ua1'' (counts_result (2 ^ 53))]"

definition events0 :: "batch_event list" where
  "events0 = [AgentResult ''ua1'' result_pass, AgentBeat ''ua1'', AgentResult ''ua2'' result_fail]"

definition events0' :: "batch_event list" where
  "events0' = [AgentResult ''ua2'' result_fail, AgentResult ''ua1'' result_pass, AgentBeat ''ua1'']"

definition script_error0 :: jsval where
  "script_error0 = JObj [(''message'', JStr ''boom''), (''url'', JStr ''http://h/a.html''),
     (''line'', JNum 3)]"

definition proc0 :: proc where
  "proc0 = submitBatch env0 [''a.html'', ''b.html'', ''c.html''] start"

definition proc1 :: proc where
  "proc1 = proc0\<lparr>details := \<lparr>passed = JNum 2, failed = JNum 1, currentIndex = 1, total = 3\<rparr>\<rparr>"

section \<open>Auxiliary facts\<close>

lemma error_simps:
  "trace (error a s) = trace s @ [ConsoleError a]"
  "exit_status (error a s) = exit_status s"
  "ticks (error a s) = ticks s"
  "batch_listeners (error a s) = batch_listeners s"
  "timeStart (error a s) = timeStart s"
  "beats (error a s) = beats s"
  "spinIndex (error a s) = spinIndex s"
  "details (error a s) = details s"
  by (simp_all add: error_def do_effect_def)

lemma panic_simps:
  "trace (panic a s) = trace s @ [ConsoleError a]"
  "exit_status (panic a s) = Some 1"
  "ticks (panic a s) = ticks s"
  "batch_listeners (panic a s) = batch_listeners s"
  "timeStart (panic a s) = timeStart s"
  "beats (panic a s) = beats s"
  "spinIndex (panic a s) = spinIndex s"
  "details (panic a s) = details s"
  by (simp_all add: panic_def error_simps)

lemma uncaught_simps:
  "trace (uncaught e err s) = trace s @ [ConsoleError [JStr (uncaught_message e err)]]"
  "exit_status (uncaught e err s) = Some 1"
  "ticks (uncaught e err s) = ticks s"
  "batch_listeners (uncaught e err s) = batch_listeners s"
  "timeStart (uncaught e err s) = timeStart s"
  "beats (uncaught e err s) = beats s"
  "spinIndex (uncaught e err s) = spinIndex s"
  "details (uncaught e err s) = details s"
  by (simp_all add: uncaught_def panic_simps)

lemma updateProgress_simps:
  "trace (updateProgress e s) =
     trace s @ [StderrWrite ([CHR 0x0D, CHR 0x1B] @ ''[2K''), StderrWrite (progress_line e s)]"
  "exit_status (updateProgress e s) = exit_status s"
  "ticks (updateProgress e s) = Suc (ticks s)"
  "batch_listeners (updateProgress e s) = batch_listeners s"
  "timeStart (updateProgress e s) = timeStart s"
  "beats (updateProgress e s) = beats s"
  "spinIndex (updateProgress e s) = (if spinIndex s + 1 > 3 then 0 else spinIndex s + 1)"
  "details (updateProgress e s) = details s"
  by (simp_all add: updateProgress_def do_effect_def tick_def Let_def spin_def)

lemma submitBatch_simps:
  "trace (submitBatch e tests s) = trace s @ [CreateBatch (cwd e) tests]"
  "exit_status (submitBatch e tests s) = exit_status s"
  "ticks (submitBatch e tests s) = Suc (ticks s)"
  "batch_listeners (submitBatch e tests s)"
  "timeStart (submitBatch e tests s) = clock e (ticks s)"
  "beats (submitBatch e tests s) = 0"
  "spinIndex (submitBatch e tests s) = 0"
  "details (submitBatch e tests s) =
     \<lparr>passed = JNum 0, failed = JNum 0, currentIndex = 0, total = int (length tests)\<rparr>"
  by (simp_all add: submitBatch_def do_effect_def tick_def now_def Let_def)

lemma on_agentResult_simps:
  "batch_listeners (on_agentResult e a d s) = batch_listeners s"
  "spinIndex (on_agentResult e a d s) = spinIndex s"
  "beats (on_agentResult e a d s) = beats s"
  "total (details (on_agentResult e a d s)) = total (details s)"
  by (simp_all add: on_agentResult_def Let_def error_simps uncaught_simps
      split: option.splits prod.splits)

lemma on_agentResult_exit:
  "exit_status s = None \<Longrightarrow>
   (exit_status (on_agentResult e a d s) = None) = (\<not> stops e (AgentResult a d))"
  by (cases d)
     (auto simp add: on_agentResult_def stops_def Let_def error_simps uncaught_simps
      split: option.splits prod.splits)

lemma js_add_exact: "\<bar>x + y\<bar> \<le> 2 ^ 53 \<Longrightarrow> js_add (JNum x) (JNum y) = JNum (x + y)"
  by (simp add: js_add_def add_numbers_def js_number_def round_int_def)

lemma dec_int_exact:
  assumes "\<bar>i\<bar> \<le> 2 ^ 53"
  shows "dec_int i = (if i < 0 then ''-'' @ dec_nat (nat (- i)) else dec_nat (nat i))"
proof -
  have "i \<le> 2 ^ 53" "- i \<le> 2 ^ 53" using assms by arith+
  then show ?thesis using assms by (simp add: dec_int_def round_int_def nat_string_def)
qed

lemma on_agentResult_counts:
  "js_get d ''passed'' = Some p \<Longrightarrow> js_get d ''failed'' = Some f \<Longrightarrow>
   passed (details (on_agentResult e a d s)) = js_add (passed (details s)) p \<and>
   failed (details (on_agentResult e a d s)) = js_add (failed (details s)) f \<and>
   currentIndex (details (on_agentResult e a d s)) = currentIndex (details s) + 1"
  by (cases d)
     (auto simp add: on_agentResult_def Let_def error_simps uncaught_simps
      split: option.splits prod.splits)

lemma on_agentScriptError_simps:
  "batch_listeners (on_agentScriptError e a d s) = batch_listeners s"
  "spinIndex (on_agentScriptError e a d s) = spinIndex s"
  "beats (on_agentScriptError e a d s) = beats s"
  "details (on_agentScriptError e a d s) = details s"
  "(exit_status (on_agentScriptError e a d s) = None) =
     (exit_status s = None \<and> \<not> stops e (AgentScriptError a d))"
  by (cases d; simp add: on_agentScriptError_def error_simps uncaught_simps stops_def
      split: option.splits)+

lemma on_agentError_simps:
  "batch_listeners (on_agentError e a d s) = batch_listeners s"
  "spinIndex (on_agentError e a d s) = spinIndex s"
  "beats (on_agentError e a d s) = beats s"
  "details (on_agentError e a d s) = details s"
  "(exit_status (on_agentError e a d s) = None) =
     (exit_status s = None \<and> \<not> stops e (AgentError a d))"
  by (cases d; simp add: on_agentError_def error_simps uncaught_simps stops_def
      split: option.splits)+

lemma on_dispatch_simps:
  "batch_listeners (on_dispatch agents s) = batch_listeners s"
  "spinIndex (on_dispatch agents s) = spinIndex s"
  "beats (on_dispatch agents s) = beats s"
  "passed (details (on_dispatch agents s)) = passed (details s)"
  "failed (details (on_dispatch agents s)) = failed (details s)"
  "currentIndex (details (on_dispatch agents s)) = currentIndex (details s)"
  "total (details (on_dispatch agents s)) =
     (if agents = [] then total (details s) else total (details s) * int (length agents))"
  "(exit_status (on_dispatch agents s) = None) = (exit_status s = None \<and> agents \<noteq> [])"
  by (simp_all add: on_dispatch_def Let_def error_simps panic_simps)

lemma on_complete_simps:
  "batch_listeners (on_complete e s) = batch_listeners s"
  "details (on_complete e s) = details s"
  "beats (on_complete e s) = beats s"
  "spinIndex (on_complete e s) = (if spinIndex s + 1 > 3 then 0 else spinIndex s + 1)"
  "exit_status (on_complete e s) = Some (if truthy (failed (details s)) then 1 else 0)"
  by (simp_all add: on_complete_def Let_def process_exit_def tick_def error_simps
      updateProgress_simps)

lemma numeric_countsD:
  assumes "numeric_counts (AgentResult a d)"
  shows "\<exists>p f. js_get d ''passed'' = Some (JNum p) \<and> js_get d ''failed'' = Some (JNum f)"
proof (cases "js_get d ''passed''")
  case None
  then show ?thesis using assms by (simp add: numeric_counts_def)
next
  case (Some p)
  note sp = Some
  show ?thesis
  proof (cases "js_get d ''failed''")
    case None
    then show ?thesis using assms sp by (cases p) (simp_all add: numeric_counts_def)
  next
    case (Some f)
    then show ?thesis using assms sp
      by (cases p; cases f) (simp_all add: numeric_counts_def)
  qed
qed

lemma batch_emit_exited: "exit_status s \<noteq> None \<Longrightarrow> batch_emit e ev s = s"
  by (cases "exit_status s") (simp_all add: batch_emit_def)

lemma batch_run_exited: "exit_status s \<noteq> None \<Longrightarrow> batch_run e evs s = s"
  by (induction evs) (simp_all add: batch_run_def batch_emit_exited)

lemma batch_run_Cons: "batch_run e (ev # evs) s = batch_run e evs (batch_emit e ev s)"
  by (simp add: batch_run_def)

lemma batch_run_append: "batch_run e (xs @ ys) s = batch_run e ys (batch_run e xs s)"
  by (simp add: batch_run_def)

lemma batch_emit_listeners: "batch_listeners (batch_emit e ev s) = batch_listeners s"
  by (cases ev)
     (simp_all add: batch_emit_def on_agentResult_simps on_agentScriptError_simps
       on_agentError_simps on_dispatch_simps on_complete_simps on_agentComplete_def
       on_agentProgress_def on_agentBeat_def error_simps updateProgress_simps)

lemma batch_emit_stops:
  assumes "exit_status s = None" "batch_listeners s"
  shows "(exit_status (batch_emit e ev s) = None) = (\<not> stops e ev)"
proof (cases ev)
  case (AgentResult a d)
  then show ?thesis using assms on_agentResult_exit [of s e a d]
    by (simp add: batch_emit_def)
next
  case (AgentScriptError a d)
  then show ?thesis using assms by (simp add: batch_emit_def on_agentScriptError_simps)
next
  case (AgentError a d)
  then show ?thesis using assms by (simp add: batch_emit_def on_agentError_simps)
next
  case (AgentComplete a)
  then show ?thesis using assms
    by (simp add: batch_emit_def on_agentComplete_def error_simps stops_def)
next
  case (AgentProgress a d)
  then show ?thesis using assms
    by (simp add: batch_emit_def on_agentProgress_def updateProgress_simps stops_def)
next
  case (AgentBeat a)
  then show ?thesis using assms
    by (simp add: batch_emit_def on_agentBeat_def updateProgress_simps stops_def)
next
  case (Dispatch agents)
  then show ?thesis using assms
    by (simp add: batch_emit_def on_dispatch_simps stops_def)
next
  case Complete
  then show ?thesis using assms
    by (simp add: batch_emit_def on_complete_simps stops_def)
qed

lemma batch_run_running:
  assumes "exit_status s = None" "batch_listeners s"
  shows "(exit_status (batch_run e evs s) = None) = (\<forall>ev\<in>set evs. \<not> stops e ev)"
  using assms
proof (induction evs arbitrary: s)
  case Nil
  then show ?case by (simp add: batch_run_def)
next
  case (Cons ev evs)
  show ?case
  proof (cases "stops e ev")
    case True
    then have "exit_status (batch_emit e ev s) \<noteq> None"
      using batch_emit_stops [OF Cons.prems, of e ev] by simp
    then show ?thesis using True by (simp add: batch_run_Cons batch_run_exited)
  next
    case False
    then have "exit_status (batch_emit e ev s) = None"
      using batch_emit_stops [OF Cons.prems, of e ev] by simp
    moreover have "batch_listeners (batch_emit e ev s)"
      using Cons.prems by (simp add: batch_emit_listeners)
    ultimately show ?thesis using Cons.IH False by (simp add: batch_run_Cons)
  qed
qed

lemma batch_emit_counts:
  assumes "exit_status s = None" "batch_listeners s" "numeric_counts ev"
    "passed (details s) = JNum x" "failed (details s) = JNum y"
    "\<bar>x + passed_count ev\<bar> \<le> 2 ^ 53" "\<bar>y + failed_count ev\<bar> \<le> 2 ^ 53"
  shows "passed (details (batch_emit e ev s)) = JNum (x + passed_count ev) \<and>
         failed (details (batch_emit e ev s)) = JNum (y + failed_count ev)"
proof (cases ev)
  case (AgentResult a d)
  with assms(3) obtain p f where pf: "js_get d ''passed'' = Some (JNum p)"
      "js_get d ''failed'' = Some (JNum f)"
    using numeric_countsD by blast
  have "\<bar>x + p\<bar> \<le> 2 ^ 53" "\<bar>y + f\<bar> \<le> 2 ^ 53"
    using assms(6,7) AgentResult pf by (simp_all add: passed_count_def failed_count_def)
  then have "js_add (JNum x) (JNum p) = JNum (x + p)" "js_add (JNum y) (JNum f) = JNum (y + f)"
    by (simp_all add: js_add_exact)
  with on_agentResult_counts [OF pf, of e a s] AgentResult assms(1,2,4,5) pf show ?thesis
    by (simp add: batch_emit_def passed_count_def failed_count_def)
qed (use assms in \<open>simp_all add: batch_emit_def passed_count_def failed_count_def
       on_agentScriptError_simps on_agentError_simps on_dispatch_simps on_complete_simps
       on_agentComplete_def on_agentProgress_def on_agentBeat_def error_simps
       updateProgress_simps\<close>)

lemma sum_list_nonneg_counts:
  fixes f :: "'a \<Rightarrow> int"
  shows "\<forall>x\<in>set xs. 0 \<le> f x \<Longrightarrow> 0 \<le> sum_list (map f xs)"
  by (induction xs) simp_all

lemma batch_run_counts:
  assumes "exit_status s = None" "batch_listeners s" "\<forall>ev\<in>set evs. numeric_counts ev"
    "\<forall>ev\<in>set evs. \<not> stops e ev"
    "passed (details s) = JNum x" "failed (details s) = JNum y"
    "\<forall>ev\<in>set evs. 0 \<le> passed_count ev \<and> 0 \<le> failed_count ev"
    "0 \<le> x" "0 \<le> y"
    "x + sum_list (map passed_count evs) \<le> 2 ^ 53"
    "y + sum_list (map failed_count evs) \<le> 2 ^ 53"
  shows "passed (details (batch_run e evs s)) = JNum (x + sum_list (map passed_count evs)) \<and>
         failed (details (batch_run e evs s)) = JNum (y + sum_list (map failed_count evs))"
  using assms
proof (induction evs arbitrary: s x y)
  case Nil
  then show ?case by (simp add: batch_run_def)
next
  case (Cons ev evs)
  let ?s = "batch_emit e ev s"
  have nn: "0 \<le> passed_count ev" "0 \<le> failed_count ev"
      "0 \<le> sum_list (map passed_count evs)" "0 \<le> sum_list (map failed_count evs)"
    using Cons.prems(7) by (simp_all add: sum_list_nonneg_counts)
  have bp: "\<bar>x + passed_count ev\<bar> \<le> 2 ^ 53" and bf: "\<bar>y + failed_count ev\<bar> \<le> 2 ^ 53"
    using nn Cons.prems(8-11) by simp_all
  have run: "exit_status ?s = None"
    using batch_emit_stops [OF Cons.prems(1,2), of e ev] Cons.prems(4) by simp
  have lis: "batch_listeners ?s" using Cons.prems(2) by (simp add: batch_emit_listeners)
  have cnt: "passed (details ?s) = JNum (x + passed_count ev)"
      "failed (details ?s) = JNum (y + failed_count ev)"
    using batch_emit_counts [OF Cons.prems(1,2) _ Cons.prems(5,6) bp bf, of e] Cons.prems(3)
    by simp_all
  have "passed (details (batch_run e evs ?s))
          = JNum (x + passed_count ev + sum_list (map passed_count evs)) \<and>
        failed (details (batch_run e evs ?s))
          = JNum (y + failed_count ev + sum_list (map failed_count evs))"
    using Cons.prems(3,4,7-11) nn by (intro Cons.IH [OF run lis _ _ cnt]) simp_all
  then show ?case by (simp add: batch_run_Cons add.assoc)
qed

lemma sum_list_mset_cong:
  fixes f :: "'a \<Rightarrow> int"
  assumes "mset xs = mset ys"
  shows "sum_list (map f xs) = sum_list (map f ys)"
  by (metis assms mset_map sum_mset_sum_list)

lemma deliver_exited: "exit_status s \<noteq> None \<Longrightarrow> deliver e opts ev s = s"
  by (cases "exit_status s") (simp_all add: deliver_def)

lemma run_exited: "exit_status s \<noteq> None \<Longrightarrow> run e opts evs s = s"
  by (induction evs) (simp_all add: run_def deliver_exited)

lemma batch_emit_total:
  "\<not> is_dispatch ev \<Longrightarrow> total (details (batch_emit e ev s)) = total (details s)"
  by (cases ev)
     (simp_all add: batch_emit_def is_dispatch_def on_agentResult_simps
       on_agentScriptError_simps on_agentError_simps on_complete_simps on_agentComplete_def
       on_agentProgress_def on_agentBeat_def error_simps updateProgress_simps)

lemma batch_run_total:
  "\<forall>ev\<in>set evs. \<not> is_dispatch ev \<Longrightarrow> total (details (batch_run e evs s)) = total (details s)"
  by (induction evs arbitrary: s) (simp_all add: batch_run_def batch_emit_total)

lemma batch_run_listeners: "batch_listeners (batch_run e evs s) = batch_listeners s"
  by (induction evs arbitrary: s) (simp_all add: batch_run_def batch_emit_listeners)

lemma batch_emit_total_pos:
  assumes "1 \<le> total (details s)"
  shows "1 \<le> total (details (batch_emit e ev s))"
proof (cases ev)
  case (Dispatch agents)
  show ?thesis
  proof (cases "agents = []")
    case True
    then show ?thesis using Dispatch assms by (simp add: batch_emit_def on_dispatch_simps)
  next
    case False
    then have "1 \<le> int (length agents)" by (cases agents) simp_all
    then have "1 * 1 \<le> total (details s) * int (length agents)"
      using assms by (intro mult_mono) simp_all
    then show ?thesis using Dispatch False assms by (simp add: batch_emit_def on_dispatch_simps)
  qed
qed (use assms in \<open>simp_all add: batch_emit_def on_agentResult_simps
       on_agentScriptError_simps on_agentError_simps on_complete_simps on_agentComplete_def
       on_agentProgress_def on_agentBeat_def error_simps updateProgress_simps\<close>)

lemma batch_run_total_pos:
  "1 \<le> total (details s) \<Longrightarrow> 1 \<le> total (details (batch_run e evs s))"
  by (induction evs arbitrary: s) (simp_all add: batch_run_def batch_emit_total_pos)

lemma batch_emit_spin:
  "spinIndex s < 4 \<Longrightarrow> spinIndex (batch_emit e ev s) < 4"
  by (cases ev)
     (simp_all add: batch_emit_def on_agentResult_simps on_dispatch_simps
       on_agentScriptError_simps on_agentError_simps on_complete_simps on_agentComplete_def
       on_agentProgress_def on_agentBeat_def error_simps updateProgress_simps)

lemma batch_run_spin:
  "spinIndex s < 4 \<Longrightarrow> spinIndex (batch_run e evs s) < 4"
  by (induction evs arbitrary: s) (simp_all add: batch_run_def batch_emit_spin)

lemma updateProgress_funpow_spin:
  "spinIndex s = 0 \<Longrightarrow> spinIndex ((updateProgress e ^^ n) s) = n mod 4"
proof (induction n)
  case 0
  then show ?case by simp
next
  case (Suc n)
  have "spinIndex ((updateProgress e ^^ Suc n) s) = (if 3 < n mod 4 + 1 then 0 else n mod 4 + 1)"
    using Suc by (simp add: updateProgress_simps)
  also have "\<dots> = Suc n mod 4"
    by (cases "n mod 4 = 3") (auto simp add: mod_Suc)
  finally show ?case .
qed

lemma length_spin: "length spin = 4"
  by (simp add: spin_def)

lemma spin_at_values: "i < 4 \<Longrightarrow> spin_at i = [''/'', ''|'', [CHR 0x5C], ''-''] ! i"
  by (simp add: spin_at_def spin_def)

lemma spin_at_length: "i < 4 \<Longrightarrow> length (spin_at i) = 1"
proof -
  assume "i < 4"
  then have "i = 0 \<or> i = 1 \<or> i = 2 \<or> i = 3" by arith
  then show ?thesis by (auto simp add: spin_at_def spin_def)
qed

lemma progress_line_glyph:
  assumes "spinIndex s = i" and "i < 4"
  shows "take 12 (progress_line e s) = ''Testing... '' @ spin_at i"
  using assms spin_at_length [of i] by (simp add: progress_line_def Let_def)


lemma percent_text_unguarded: "percent_text 0 0 = ''NaN''"
  by (simp add: percent_text_def js_div_def)



lemma for_each_Nil: "for_each body [] w = w"
  by (simp add: for_each_def)

lemma for_each_Cons:
  "for_each body (p # ps) w = for_each body ps (if raised w = None then body p w else w)"
  by (simp add: for_each_def)

lemma for_each_append:
  "for_each body (ps @ qs) w = for_each body qs (for_each body ps w)"
  by (simp add: for_each_def)

lemma for_each_quiet:
  "(\<And>p w. p \<in> set ps \<Longrightarrow> body p w = w) \<Longrightarrow> for_each body ps w = w"
  by (induction ps arbitrary: w) (simp_all add: for_each_Nil for_each_Cons)

lemma for_each_cong_body:
  "(\<And>p w. body p w = body' p w) \<Longrightarrow> for_each body ps w = for_each body' ps w"
  by (induction ps arbitrary: w) (simp_all add: for_each_Nil for_each_Cons)

lemma hasResults_indep: "hasResults test a = hasResults test b"
  by (simp add: hasResults_def)

lemma walk_flat:
  assumes "hasResults test test = Some True"
  shows "walk e suite test n v w = for_each (\<lambda>p. reportTestError e suite (snd p)) (for_in v) w"
proof -
  have hr: "\<And>x. hasResults test x = Some True"
    using assms hasResults_indep [of test _ test] by simp
  have "\<And>r p w. walk_body e suite test r p w = reportTestError e suite (snd p) w"
    by (simp add: walk_body_def hr)
  then have "\<And>r. for_each (walk_body e suite test r) (for_in v) w
      = for_each (\<lambda>p. reportTestError e suite (snd p)) (for_in v) w"
    by (intro for_each_cong_body)
  then show ?thesis by (cases n) simp_all
qed

lemma hasResults_JObj: "\<exists>b. hasResults (JObj ps) x = Some b"
  by (auto simp add: hasResults_def)

lemma reportTestError_quiet: "not_failing v \<Longrightarrow> reportTestError e suite v w = w"
  by (auto simp add: reportTestError_def not_failing_def split: option.splits)

lemma fold_say:
  "fold (\<lambda>l. say (g l)) ls w = w\<lparr>printed := printed w @ map g ls\<rparr>"
  by (induction ls arbitrary: w) (simp_all add: say_def)

lemma reportTestError_fail:
  assumes "js_get leaf ''result'' = Some (JStr ''fail'')"
    and "js_get (snd suite) ''name'' = Some sname"
    and "js_get leaf ''message'' = Some (JStr m)"
    and "js_get leaf ''name'' = Some tname"
    and "\<not> truthy (lastSuite w)"
  shows "reportTestError e suite leaf w =
           w\<lparr>lastSuite := sname, lastSuiteKey := fst suite,
             printed := printed w @ failure_block e sname tname m\<rparr>"
  using assms
  by (simp add: reportTestError_def Let_def fold_say failure_block_def say_def)

lemma visit_test_quiet: "quiet_test (snd p) \<Longrightarrow> visit_test e suite p w = w"
proof (cases "snd p")
  case (JObj ps)
  define t where "t = snd p"
  note JObj = JObj [folded t_def]
  assume "quiet_test (snd p)"
  then have q: "quiet_test t" by (simp add: t_def)
  then have nf: "not_failing t" and ch: "\<And>p. p \<in> set ps \<Longrightarrow> not_failing (snd p)"
    using JObj by (simp_all add: quiet_test_def list_all_iff)
  obtain b where b: "hasResults t t = Some b"
    using JObj hasResults_JObj [of ps t] by auto
  show ?thesis
  proof (cases b)
    case True
    then have "walk e suite t (stack_left e) t w = w"
      using b JObj ch by (simp add: walk_flat for_each_quiet reportTestError_quiet)
    then show ?thesis using b True JObj by (simp add: visit_test_def t_def)
  next
    case False
    then show ?thesis using b JObj nf
      by (simp add: visit_test_def reportTestError_quiet t_def)
  qed
qed (simp_all add: visit_test_def quiet_test_def)

lemma visit_suite_quiet: "quiet_suite (snd p) \<Longrightarrow> visit_suite e p w = w"
proof (cases "snd p")
  case (JObj qs)
  assume q: "quiet_suite (snd p)"
  then have "\<And>p' w. p' \<in> set qs \<Longrightarrow> visit_test e p p' w = w"
    using JObj by (intro visit_test_quiet) (simp add: quiet_suite_def list_all_iff)
  then have "for_each (visit_test e p) qs w = w" by (rule for_each_quiet)
  then show ?thesis using JObj by (simp add: visit_suite_def Let_def split: option.splits)
qed (simp_all add: visit_suite_def quiet_suite_def)

lemma visit_suite_skipped:
  "js_get suite ''failed'' = Some f \<Longrightarrow> \<not> truthy f \<Longrightarrow> visit_suite e (k, suite) w = w"
  by (simp add: visit_suite_def)

lemma visit_test_unmarked:
  assumes "hasResults t t = Some False"
  shows "visit_test e suite (k1, t) w = reportTestError e suite t w"
proof (cases "typeof_object t")
  case True
  then show ?thesis using assms by (simp add: visit_test_def)
next
  case False
  then have "js_in ''passed'' t = None" by (cases t) simp_all
  then show ?thesis using assms by (simp add: hasResults_def)
qed

lemma walker_one_failure:
  assumes res: "result = JObj (rs1 @ (k, suite) # rs2)"
    and sui: "suite = JObj (qs1 @ (k1, tc) # qs2)"
    and tc: "tc = JObj (ps1 @ (i, leaf) # ps2)"
    and q1: "list_all (\<lambda>p. quiet_suite (snd p)) (rs1 @ rs2)"
    and q2: "list_all (\<lambda>p. quiet_test (snd p)) (qs1 @ qs2)"
    and q3: "list_all (\<lambda>p. not_failing (snd p)) (ps1 @ ps2)"
    and sf: "js_get suite ''failed'' = Some f" "truthy f"
    and sn: "js_get suite ''name'' = Some sname"
    and hr: "hasResults tc tc = Some True"
    and lf: "js_get leaf ''result'' = Some (JStr ''fail'')"
    and lm: "js_get leaf ''message'' = Some (JStr m)"
    and ln: "js_get leaf ''name'' = Some tname"
  shows "displayVerboseResult e result =
           \<lparr>lastSuite = sname, lastSuiteKey = k,
            printed = failure_block e sname tname m @ [[JStr []]], raised = None\<rparr>"
proof -
  let ?su = "(k, suite)"
  let ?w0 = "\<lparr>lastSuite = JUndefined, lastSuiteKey = [], printed = [], raised = None\<rparr>"
  let ?w1 = "\<lparr>lastSuite = sname, lastSuiteKey = k,
              printed = failure_block e sname tname m, raised = None\<rparr>"
  have qs: "\<And>p w. p \<in> set rs1 \<union> set rs2 \<Longrightarrow> visit_suite e p w = w"
    using q1 by (intro visit_suite_quiet) (auto simp add: list_all_iff)
  have qt: "\<And>p w. p \<in> set qs1 \<union> set qs2 \<Longrightarrow> visit_test e ?su p w = w"
    using q2 by (intro visit_test_quiet) (auto simp add: list_all_iff)
  have ql: "\<And>p w. p \<in> set ps1 \<union> set ps2 \<Longrightarrow> reportTestError e ?su (snd p) w = w"
    using q3 by (auto simp add: list_all_iff reportTestError_quiet)
  have sn': "js_get (snd ?su) ''name'' = Some sname" using sn by simp
  have leaf: "reportTestError e ?su leaf ?w0 = ?w1"
    using reportTestError_fail [OF lf sn' lm ln, of ?w0 e] by simp
  have "walk e ?su tc (stack_left e) tc ?w0
          = for_each (\<lambda>p. reportTestError e ?su (snd p)) (ps1 @ (i, leaf) # ps2) ?w0"
    using walk_flat [OF hr] tc by simp
  also have "\<dots> = ?w1"
    using leaf ql by (simp add: for_each_append for_each_Cons for_each_quiet)
  finally have wk: "walk e ?su tc (stack_left e) tc ?w0 = ?w1" .
  have vt: "visit_test e ?su (k1, tc) ?w0 = ?w1"
    using wk hr tc by (simp add: visit_test_def)
  have "visit_suite e ?su ?w0 = for_each (visit_test e ?su) (qs1 @ (k1, tc) # qs2) ?w0"
    using sui sf by (simp add: visit_suite_def)
  also have "\<dots> = ?w1"
    using vt qt by (simp add: for_each_append for_each_Cons for_each_quiet)
  finally have vs: "visit_suite e (k, suite) ?w0 = ?w1" .
  have "for_each (visit_suite e) (rs1 @ (k, suite) # rs2) ?w0 = ?w1"
    using vs qs by (simp add: for_each_append for_each_Cons for_each_quiet)
  then show ?thesis using res by (simp add: displayVerboseResult_def say_def)
qed

lemma fold_on_agentConnect:
  "fold on_agentConnect agents s =
     s\<lparr>trace := trace s @ (if client_listeners s
          then map (\<lambda>a. ConsoleError [JStr ''  Agent connected:'', JStr a]) agents else [])\<rparr>"
  by (induction agents arbitrary: s) (simp_all add: on_agentConnect_def error_def do_effect_def)

lemmas proc_defs = on_connect_def createHub_def prepareTests_def connectToURL_def runBatch_def
  startServer_def on_hub_error_def on_hub_listening_def on_getAgents_def on_answer_def
  on_agentConnect_def on_agentDisconnect_def do_effect_def error_def panic_def puts_def
  uncaught_def submitBatch_def tick_def now_def Let_def fold_on_agentConnect

lemma route_phased: "phased (route e argv1 opts)"
  by (simp add: route_def phased_def idle_def proc_defs start_def is_render_def is_submit_def)

lemma batch_emit_pending:
  "connect_pending (batch_emit e ev s) = connect_pending s"
  "getAgents_pending (batch_emit e ev s) = getAgents_pending s"
  "question_pending (batch_emit e ev s) = question_pending s"
  by (cases ev; simp add: batch_emit_def on_agentResult_def on_agentScriptError_def
      on_agentError_def on_agentComplete_def on_agentProgress_def on_agentBeat_def
      on_dispatch_def on_complete_def updateProgress_def process_exit_def proc_defs
      split: option.splits prod.splits)+

lemma batch_emit_idle: "idle s \<Longrightarrow> batch_emit e ev s = s"
  by (simp add: batch_emit_def idle_def)

lemma deliver_phased:
  assumes "phased s"
  shows "phased (deliver e opts ev s)"
proof (cases "exit_status s = None")
  case False
  then show ?thesis using assms by (simp add: deliver_exited)
next
  case True
  show ?thesis
  proof (cases ev)
    case (ConnectDone err)
    then show ?thesis using assms True
      by (cases "connect_pending s"; cases "the (connect_pending s)")
         (auto simp add: deliver_def phased_def idle_def proc_defs is_render_def is_submit_def)
  next
    case (HubError err)
    then show ?thesis using assms True
      by (cases "hub_error_once s"; cases "the (hub_error_once s)")
         (auto simp add: deliver_def phased_def idle_def proc_defs is_render_def is_submit_def)
  next
    case HubListening
    then show ?thesis using assms True
      by (auto simp add: deliver_def phased_def idle_def proc_defs is_render_def is_submit_def)
  next
    case (AgentsListed err agents)
    then show ?thesis using assms True
      by (auto simp add: deliver_def phased_def idle_def proc_defs is_render_def is_submit_def
          list_all_iff)
  next
    case (AgentConnect a)
    then show ?thesis using assms True
      by (auto simp add: deliver_def phased_def idle_def proc_defs is_render_def is_submit_def)
  next
    case (AgentDisconnect a)
    then show ?thesis using assms True
      by (auto simp add: deliver_def phased_def idle_def proc_defs is_render_def is_submit_def)
  next
    case Answer
    then show ?thesis using assms True
      by (auto simp add: deliver_def phased_def idle_def proc_defs is_render_def is_submit_def)
  next
    case (Batch bev)
    show ?thesis
    proof (cases "idle s")
      case True
      then show ?thesis using assms Batch by (simp add: deliver_def batch_emit_idle)
    next
      case False
      then show ?thesis using assms Batch
        by (simp add: deliver_def phased_def batch_emit_pending)
    qed
  qed
qed

lemma run_phased: "phased s \<Longrightarrow> phased (run e opts evs s)"
  by (induction evs arbitrary: s) (simp_all add: run_def deliver_phased)

lemma run_Cons: "run e opts (ev # evs) s = run e opts evs (deliver e opts ev s)"
  by (simp add: run_def)

lemma no_agents_fatal_step:
  assumes "exit_status s = None" and "getAgents_pending s" and "\<not> isTTY e"
    and "\<not> err_truthy err"
  shows "deliver e opts (AgentsListed err []) s =
           (s\<lparr>getAgents_pending := False,
               trace := trace s @ [ConsoleError [JStr (uncaught_message e (ErrString no_agents_msg))]],
               exit_status := Some 1\<rparr>)"
  using assms by (simp add: deliver_def proc_defs no_agents_msg_def)

lemma env0_simps:
  "isTTY env0 = False" "red env0 = to_str" "green env0 = to_str" "bold env0 = to_str"
  "meta_version env0 = ''0.1.0''" "meta_bugs_url env0 = ''http://bugs.example''"
  "process_version env0 = ''v0.6.0''" "cwd env0 = ''/tmp''"
  "clock env0 = (\<lambda>n. 1000 + int n)" "stack_left env0 = 100"
  by (simp_all add: env0_def)

lemma port_of_opts0: "port_of opts0 = 9000"
  by (simp add: port_of_def opts0_def)

lemma dec_int_9000: "dec_int 9000 = ''9000''"
  by (simp add: dec_int_exact dec_nat.simps)

lemma proc0_simps:
  "exit_status proc0 = None" "batch_listeners proc0" "ticks proc0 = 1" "timeStart proc0 = 1000"
  "trace proc0 = [CreateBatch ''/tmp'' [''a.html'', ''b.html'', ''c.html'']]"
  "details proc0 = \<lparr>passed = JNum 0, failed = JNum 0, currentIndex = 0, total = 3\<rparr>"
  by (simp_all add: proc0_def submitBatch_simps start_def env0_simps)

lemma result_fail_walk:
  "displayVerboseResult e result_fail =
     \<lparr>lastSuite = JStr ''Outer'', lastSuiteKey = ''Outer'',
      printed = failure_block e (JStr ''Outer'') (JStr ''testBad'')
                  (''Expected 1'' @ [CHR 0x0A] @ ''Actual 2'') @ [[JStr []]],
      raised = None\<rparr>"
proof (rule walker_one_failure)
  show "result_fail = JObj ([(''passed'', JNum 1), (''failed'', JNum 1), (''name'', JStr ''report''),
     (''type'', JStr ''report'')] @ (''Outer'', suite_outer) # [])"
    by (simp add: result_fail_def)
  show "suite_outer = JObj ([(''passed'', JNum 1), (''failed'', JNum 1), (''name'', JStr ''Outer''),
     (''type'', JStr ''testsuite'')] @ (''Inner'', case_inner) # [])"
    by (simp add: suite_outer_def)
  show "case_inner = JObj ([(''passed'', JNum 1), (''failed'', JNum 1), (''name'', JStr ''Inner''),
     (''type'', JStr ''testcase''), (''testOk'', leaf_ok)] @ (''testBad'', leaf_bad) # [])"
    by (simp add: case_inner_def)
  show "list_all (\<lambda>p. quiet_suite (snd p)) ([(''passed'', JNum 1), (''failed'', JNum 1),
     (''name'', JStr ''report''), (''type'', JStr ''report'')] @ [])"
    by (simp add: quiet_suite_def)
  show "list_all (\<lambda>p. quiet_test (snd p)) ([(''passed'', JNum 1), (''failed'', JNum 1),
     (''name'', JStr ''Outer''), (''type'', JStr ''testsuite'')] @ [])"
    by (simp add: quiet_test_def)
  show "list_all (\<lambda>p. not_failing (snd p)) ([(''passed'', JNum 1), (''failed'', JNum 1),
     (''name'', JStr ''Inner''), (''type'', JStr ''testcase''), (''testOk'', leaf_ok)] @ [])"
    by (simp add: not_failing_def leaf_ok_def)
  show "js_get suite_outer ''failed'' = Some (JNum 1)" by (simp add: suite_outer_def)
  show "truthy (JNum 1)" by simp
  show "js_get suite_outer ''name'' = Some (JStr ''Outer'')" by (simp add: suite_outer_def)
  show "hasResults case_inner case_inner = Some True"
    by (simp add: hasResults_def case_inner_def)
  show "js_get leaf_bad ''result'' = Some (JStr ''fail'')" by (simp add: leaf_bad_def)
  show "js_get leaf_bad ''message'' = Some (JStr (''Expected 1'' @ [CHR 0x0A] @ ''Actual 2''))"
    by (simp add: leaf_bad_def)
  show "js_get leaf_bad ''name'' = Some (JStr ''testBad'')" by (simp add: leaf_bad_def)
qed

lemma events0_not_stopping: "\<forall>ev\<in>set events0. \<not> stops e ev"
proof -
  have "js_get result_fail ''failed'' = Some (JNum 1)" by (simp add: result_fail_def)
  moreover have "js_get result_pass ''failed'' = Some (JNum 0)" by (simp add: result_pass_def)
  ultimately show ?thesis by (simp add: events0_def stops_def result_fail_walk)
qed

lemma events0_numeric: "\<forall>ev\<in>set events0. numeric_counts ev"
  by (simp add: events0_def numeric_counts_def result_pass_def result_fail_def)

lemma events0_sums:
  "sum_list (map passed_count events0) = 3" "sum_list (map failed_count events0) = 1"
  by (simp_all add: events0_def passed_count_def failed_count_def result_pass_def
      result_fail_def)

lemma events0_natural:
  "\<forall>ev\<in>set events0. numeric_counts ev \<and> 0 \<le> passed_count ev \<and> 0 \<le> failed_count ev"
  by (simp add: events0_def numeric_counts_def passed_count_def failed_count_def
      result_pass_def result_fail_def)

lemma plain_trees_walk:
  "displayVerboseResult e tree_plain
     = \<lparr>lastSuite = JUndefined, lastSuiteKey = [], printed = [[JStr []]], raised = None\<rparr>"
  "displayVerboseResult e tree_unmarked
     = \<lparr>lastSuite = JUndefined, lastSuiteKey = [], printed = [[JStr []]], raised = None\<rparr>"
  by (simp_all add: displayVerboseResult_def for_each_def visit_suite_def visit_test_def
      hasResults_def reportTestError_def say_def tree_plain_def tree_unmarked_def
      plain_outer_def unmarked_outer_def plain_inner_def)

lemma plain_trees_get:
  "js_get tree_plain ''passed'' = Some (JNum 0)" "js_get tree_plain ''failed'' = Some (JNum 1)"
  "js_get tree_plain ''name'' = Some (JStr ''report'')"
  "js_get tree_unmarked ''passed'' = Some (JNum 0)"
  "js_get tree_unmarked ''failed'' = Some (JNum 1)"
  "js_get tree_unmarked ''name'' = Some (JStr ''report'')"
  by (simp_all add: tree_plain_def tree_unmarked_def)

lemma on_agentResult_failing_trace:
  assumes "js_get d ''passed'' = Some p" and "js_get d ''failed'' = Some f" and "truthy f"
    and "js_get d ''name'' = Some nm" and "raised (displayVerboseResult e d) = None"
  shows "trace (on_agentResult e agent d s) =
           trace s @ ConsoleError [JStr (red e (JStr bad)), JStr (bold e nm), JStr ''on'', JStr agent]
             # map ConsoleError (printed (displayVerboseResult e d))"
  using assms by (simp add: on_agentResult_def Let_def error_simps)

lemma failure_block_in_once:
  "length (filter (\<lambda>args. hd args = JStr ''   in'') (failure_block e sname tname m @ [[JStr []]])) = 1"
  by (simp add: failure_block_def filter_map comp_def)








lemma counts_result_emit:
  assumes "exit_status s = None" and "batch_listeners s"
  shows "batch_emit e (AgentResult a (counts_result p)) s =
           s\<lparr>details := (details s)\<lparr>currentIndex := currentIndex (details s) + 1,
                passed := js_add (passed (details s)) (JNum p),
                failed := js_add (failed (details s)) (JNum 0)\<rparr>\<rparr>"
  using assms by (simp add: batch_emit_def on_agentResult_def counts_result_def Let_def)

lemma js_add_at_2_53:
  "js_add (JNum 0) (JNum 0) = JNum 0"
  "js_add (JNum 0) (JNum 1) = JNum 1"
  "js_add (JNum 1) (JNum 1) = JNum 2"
  "js_add (JNum 0) (JNum 9007199254740992) = JNum 9007199254740992"
  "js_add (JNum 9007199254740992) (JNum 1) = JNum 9007199254740992"
  "js_add (JNum 2) (JNum 9007199254740992) = JNum 9007199254740994"
  by (simp_all add: js_add_def add_numbers_def js_number_def round_int_def Let_def bits.simps)

section \<open>The claims\<close>

subsection \<open>C1: the counters are the sums of the counts, while the sums are exact\<close>

text \<open>
  Claim C1 says that the two counters end as the sums of the counts reported, for all
  non-negative counts and in every order of arrival. The counters are doubles, and
  \<^verbatim>\<open>batchDetails.passed += passed\<close> rounds its result: beyond \<open>2^53\<close> a sum of two
  integers need not be a double. Three results that report \<open>2^53\<close>, 1 and 1 passed tests
  (and no failed one) leave \<^verbatim>\<open>passed\<close> at \<open>2^53\<close>, which is not their sum; delivered in
  the order 1, 1, \<open>2^53\<close> they leave it at \<open>2^53 + 2\<close>.
\<close>

theorem sums_order_counterexample:
  "list_all (\<lambda>ev. numeric_counts ev \<and> 0 \<le> passed_count ev \<and> 0 \<le> failed_count ev) events_big \<and>
   mset events_big' = mset events_big \<and>
   sum_list (map passed_count events_big) = 2 ^ 53 + 2 \<and>
   exit_status (batch_run env0 events_big proc0) = None \<and>
   passed (details (batch_run env0 events_big proc0)) = JNum (2 ^ 53) \<and>
   exit_status (batch_run env0 events_big' proc0) = None \<and>
   passed (details (batch_run env0 events_big' proc0)) = JNum (2 ^ 53 + 2)"
proof -
  have "list_all (\<lambda>ev. numeric_counts ev \<and> 0 \<le> passed_count ev \<and> 0 \<le> failed_count ev)
      events_big"
    by (simp add: events_big_def numeric_counts_def passed_count_def failed_count_def
        counts_result_def)
  moreover have "mset events_big' = mset events_big"
    by (simp add: events_big_def events_big'_def)
  moreover have "sum_list (map passed_count events_big) = 2 ^ 53 + 2"
    by (simp add: events_big_def passed_count_def counts_result_def)
  moreover have "exit_status (batch_run env0 events_big proc0) = None \<and>
      passed (details (batch_run env0 events_big proc0)) = JNum (2 ^ 53)"
    by (simp add: events_big_def batch_run_def counts_result_emit proc0_simps
        js_add_at_2_53)
  moreover have "exit_status (batch_run env0 events_big' proc0) = None \<and>
      passed (details (batch_run env0 events_big' proc0)) = JNum (2 ^ 53 + 2)"
    by (simp add: events_big'_def batch_run_def counts_result_emit proc0_simps
        js_add_at_2_53)
  ultimately show ?thesis by simp
qed

text \<open>
  Claim C1, as the code has it. Take any list of batch events delivered after
  \<^verbatim>\<open>submitBatch\<close>, in which every \<^verbatim>\<open>agentResult\<close> carries non-negative integers as
  its \<^verbatim>\<open>passed\<close> and \<^verbatim>\<open>failed\<close> counts, the passed counts adding up to \<open>2^53\<close> at
  most and the failed counts as well. If all of the events have been applied (the process has
  not exited meanwhile), the aggregate's \<^verbatim>\<open>passed\<close> is the sum of the passed counts and
  its \<^verbatim>\<open>failed\<close> the sum of the failed counts; and every permutation of the list is
  applied in full as well and ends with the same two counters.
\<close>

theorem sums_any_order:
  assumes "exit_status s = None"
    and "\<forall>ev\<in>set evs. numeric_counts ev \<and> 0 \<le> passed_count ev \<and> 0 \<le> failed_count ev"
    and "sum_list (map passed_count evs) \<le> 2 ^ 53"
    and "sum_list (map failed_count evs) \<le> 2 ^ 53"
    and "exit_status (batch_run e evs (submitBatch e tests s)) = None"
    and "mset evs' = mset evs"
  shows "passed (details (batch_run e evs (submitBatch e tests s)))
           = JNum (sum_list (map passed_count evs)) \<and>
         failed (details (batch_run e evs (submitBatch e tests s)))
           = JNum (sum_list (map failed_count evs)) \<and>
         exit_status (batch_run e evs' (submitBatch e tests s)) = None \<and>
         passed (details (batch_run e evs' (submitBatch e tests s)))
           = JNum (sum_list (map passed_count evs)) \<and>
         failed (details (batch_run e evs' (submitBatch e tests s)))
           = JNum (sum_list (map failed_count evs))"
proof -
  let ?s = "submitBatch e tests s"
  have run: "exit_status ?s = None" and lis: "batch_listeners ?s"
    and p0: "passed (details ?s) = JNum 0" and f0: "failed (details ?s) = JNum 0"
    using assms(1) by (simp_all add: submitBatch_simps)
  have set_eq: "set evs' = set evs" using assms(6) by (metis set_mset_mset)
  have sp: "sum_list (map passed_count evs') = sum_list (map passed_count evs)"
    and sf: "sum_list (map failed_count evs') = sum_list (map failed_count evs)"
    by (rule sum_list_mset_cong [OF assms(6)])+
  have nc: "\<forall>ev\<in>set evs. numeric_counts ev"
    and nn: "\<forall>ev\<in>set evs. 0 \<le> passed_count ev \<and> 0 \<le> failed_count ev"
    using assms(2) by simp_all
  have ns: "\<forall>ev\<in>set evs. \<not> stops e ev"
    using batch_run_running [OF run lis, of e evs] assms(5) by simp
  have ns': "\<forall>ev\<in>set evs'. \<not> stops e ev" using ns set_eq by simp
  have nc': "\<forall>ev\<in>set evs'. numeric_counts ev" using nc set_eq by simp
  have nn': "\<forall>ev\<in>set evs'. 0 \<le> passed_count ev \<and> 0 \<le> failed_count ev"
    using nn set_eq by simp
  have a: "passed (details (batch_run e evs ?s)) = JNum (sum_list (map passed_count evs))"
      "failed (details (batch_run e evs ?s)) = JNum (sum_list (map failed_count evs))"
    using batch_run_counts [OF run lis nc ns p0 f0 nn] assms(3,4) by simp_all
  have b: "passed (details (batch_run e evs' ?s)) = JNum (sum_list (map passed_count evs'))"
      "failed (details (batch_run e evs' ?s)) = JNum (sum_list (map failed_count evs'))"
    using batch_run_counts [OF run lis nc' ns' p0 f0 nn'] assms(3,4) sp sf by simp_all
  have c: "exit_status (batch_run e evs' ?s) = None"
    using batch_run_running [OF run lis, of e evs'] ns' by simp
  show ?thesis using a b c sp sf by simp
qed

text \<open>A run of three events, one of them a result with a failing test, and a permutation of
  it: 3 passed and 1 failed either way.\<close>

theorem sums_any_order_witness:
  "exit_status start = None \<and>
   list_all (\<lambda>ev. numeric_counts ev \<and> 0 \<le> passed_count ev \<and> 0 \<le> failed_count ev) events0 \<and>
   sum_list (map passed_count events0) \<le> 2 ^ 53 \<and>
   sum_list (map failed_count events0) \<le> 2 ^ 53 \<and>
   exit_status (batch_run env0 events0 proc0) = None \<and>
   mset events0' = mset events0 \<and>
   passed (details (batch_run env0 events0 proc0)) = JNum 3 \<and>
   failed (details (batch_run env0 events0 proc0)) = JNum 1 \<and>
   exit_status (batch_run env0 events0' proc0) = None \<and>
   passed (details (batch_run env0 events0' proc0)) = JNum 3 \<and>
   failed (details (batch_run env0 events0' proc0)) = JNum 1"
proof -
  have h1: "exit_status start = None" by (simp add: start_def)
  note h2 = events0_natural
  have b1: "sum_list (map passed_count events0) \<le> 2 ^ 53"
    and b2: "sum_list (map failed_count events0) \<le> 2 ^ 53"
    by (simp_all add: events0_sums)
  have h3: "exit_status (batch_run env0 events0
      (submitBatch env0 [''a.html'', ''b.html'', ''c.html''] start)) = None"
    using events0_not_stopping [of env0]
    by (simp add: batch_run_running submitBatch_simps start_def)
  have h4: "mset events0' = mset events0" by (simp add: events0_def events0'_def)
  from sums_any_order [OF h1 h2 b1 b2 h3 h4] h1 h2 h3 h4 show ?thesis
    by (simp add: proc0_def events0_sums list_all_iff)
qed

subsection \<open>C2: the exit status at the terminal event\<close>

text \<open>
  Claim C2. When \<^verbatim>\<open>complete\<close> is handled with the aggregate's \<^verbatim>\<open>failed\<close> counter
  holding the number \<open>f\<close>, the process exits with status 0 exactly when \<open>f = 0\<close> and with
  status 1 exactly when \<open>f \<noteq> 0\<close>, and the last line it prints is the tally: the number of
  tests passed, or the failures out of the total, each with the duration.
\<close>

theorem complete_exit_status:
  assumes "exit_status s = None" and "batch_listeners s" and "failed (details s) = JNum f"
  shows "(exit_status (batch_emit e Complete s) = Some 0) = (f = 0) \<and>
         (exit_status (batch_emit e Complete s) = Some 1) = (f \<noteq> 0) \<and>
         last (trace (batch_emit e Complete s)) =
           ConsoleError
             (if f = 0 then
                [JStr (green e (js_add (js_add (passed (details s)) (JNum f))
                                 (JStr '' tests passed!''))),
                 JStr (''('' @ dec_int (clock e (Suc (ticks s)) - timeStart s) @ ''ms)'')]
              else
                [JStr (red e (JStr ''Failures'') @ '':''), JNum f, JStr ''of'',
                 js_add (passed (details s)) (JNum f), JStr ''tests failed.'',
                 JStr (''('' @ dec_int (clock e (Suc (ticks s)) - timeStart s) @ ''ms)'')])"
  using assms
  by (simp add: batch_emit_def on_complete_def Let_def process_exit_def tick_def error_simps
      updateProgress_simps now_def)

theorem complete_exit_status_witness:
  "exit_status proc1 = None \<and> batch_listeners proc1 \<and> failed (details proc1) = JNum 1 \<and>
   exit_status (batch_emit env0 Complete proc1) = Some 1 \<and>
   last (trace (batch_emit env0 Complete proc1)) =
     ConsoleError [JStr ''Failures:'', JNum 1, JStr ''of'', JNum 3, JStr ''tests failed.'',
                   JStr ''(2ms)'']"
proof -
  have h: "exit_status proc1 = None" "batch_listeners proc1" "failed (details proc1) = JNum 1"
    by (simp_all add: proc1_def proc0_simps)
  have d: "dec_int 2 = ''2''" by (simp add: dec_int_exact dec_nat.simps)
  have a: "js_add (JNum 2) (JNum 1) = JNum 3" by (simp add: js_add_exact)
  from complete_exit_status [OF h, of env0] h show ?thesis
    by (simp add: proc1_def proc0_simps env0_simps a d)
qed

subsection \<open>C3: dispatch multiplies the expected total\<close>

text \<open>
  Claim C3. \<^verbatim>\<open>submitBatch\<close> sets \<^verbatim>\<open>total\<close> to the number of tests. A
  \<^verbatim>\<open>dispatch\<close> event with a non-empty list of agents, handled right after it or
  after any events that are not dispatches and have left the process running, leaves
  \<^verbatim>\<open>total\<close> at the number of tests times the number of agents.
\<close>

theorem dispatch_multiplies_total:
  assumes "agents \<noteq> []" and "exit_status s = None"
    and "\<forall>ev\<in>set evs. \<not> is_dispatch ev"
    and "exit_status (batch_run e evs (submitBatch e tests s)) = None"
  shows "total (details (submitBatch e tests s)) = int (length tests) \<and>
         total (details (batch_emit e (Dispatch agents) (submitBatch e tests s)))
           = int (length tests) * int (length agents) \<and>
         total (details (batch_run e (evs @ [Dispatch agents]) (submitBatch e tests s)))
           = int (length tests) * int (length agents)"
proof -
  let ?s0 = "submitBatch e tests s"
  let ?s1 = "batch_run e evs ?s0"
  have t0: "total (details ?s0) = int (length tests)" by (simp add: submitBatch_simps)
  have t1: "total (details ?s1) = int (length tests)"
    using batch_run_total [OF assms(3), of e ?s0] t0 by simp
  have l1: "batch_listeners ?s1" by (simp add: batch_run_listeners submitBatch_simps)
  have "total (details (batch_emit e (Dispatch agents) ?s1))
          = int (length tests) * int (length agents)"
    using assms(1,4) l1 t1 by (simp add: batch_emit_def on_dispatch_simps)
  moreover have "total (details (batch_emit e (Dispatch agents) ?s0))
          = int (length tests) * int (length agents)"
    using assms(1,2) by (simp add: batch_emit_def on_dispatch_simps submitBatch_simps)
  ultimately show ?thesis using t0 by (simp add: batch_run_append batch_run_def)
qed

text \<open>Three files and two agents: 6.\<close>

theorem dispatch_multiplies_total_witness:
  "[''ua1'', ''ua2''] \<noteq> [] \<and> exit_status start = None \<and>
   \<not> is_dispatch (AgentBeat ''ua1'') \<and>
   exit_status (batch_run env0 [AgentBeat ''ua1''] proc0) = None \<and>
   total (details proc0) = 3 \<and>
   total (details (batch_emit env0 (Dispatch [''ua1'', ''ua2'']) proc0)) = 6 \<and>
   total (details (batch_run env0 ([AgentBeat ''ua1''] @ [Dispatch [''ua1'', ''ua2'']]) proc0)) = 6"
proof -
  have h1: "[''ua1'', ''ua2''] \<noteq> ([] :: string list)" by simp
  have h2: "exit_status start = None" by (simp add: start_def)
  have h3: "\<forall>ev\<in>set [AgentBeat ''ua1'']. \<not> is_dispatch ev" by (simp add: is_dispatch_def)
  have h4: "exit_status (batch_run env0 [AgentBeat ''ua1'']
      (submitBatch env0 [''a.html'', ''b.html'', ''c.html''] start)) = None"
    by (simp add: batch_run_running submitBatch_simps start_def stops_def)
  from dispatch_multiplies_total [OF h1 h2 h3 h4] h1 h2 h3 h4 show ?thesis
    by (simp add: proc0_def)
qed

subsection \<open>C4: a dispatch to no agent is fatal\<close>

text \<open>
  Claim C4. A \<^verbatim>\<open>dispatch\<close> event with an empty list of agents makes the running
  process print the diagnostic \<^verbatim>\<open>No browsers connected, exiting.\<close> and exit with
  status 1. The aggregate, \<^verbatim>\<open>total\<close> included, is as before, and no event that follows
  is handled: neither a batch event (an \<^verbatim>\<open>agentResult\<close>, say) nor any other callback
  changes the state.
\<close>

theorem empty_dispatch_fatal:
  assumes "exit_status s = None" and "batch_listeners s"
  shows "exit_status (batch_emit e (Dispatch []) s) = Some 1 \<and>
         trace (batch_emit e (Dispatch []) s)
           = trace s @ [ConsoleError [JStr bad, JStr ''No browsers connected, exiting.'']] \<and>
         details (batch_emit e (Dispatch []) s) = details s \<and>
         batch_run e evs (batch_emit e (Dispatch []) s) = batch_emit e (Dispatch []) s \<and>
         run e opts pevs (batch_emit e (Dispatch []) s) = batch_emit e (Dispatch []) s"
proof -
  let ?s = "batch_emit e (Dispatch []) s"
  have ex: "exit_status ?s = Some 1"
    using assms by (simp add: batch_emit_def on_dispatch_def panic_simps)
  then have "exit_status ?s \<noteq> None" by simp
  then have "batch_run e evs ?s = ?s" "run e opts pevs ?s = ?s"
    by (rule batch_run_exited, rule run_exited)
  moreover have "trace ?s = trace s @ [ConsoleError [JStr bad, JStr ''No browsers connected, exiting.'']]"
      "details ?s = details s"
    using assms by (simp_all add: batch_emit_def on_dispatch_def panic_simps)
  ultimately show ?thesis using ex by simp
qed

theorem empty_dispatch_fatal_witness:
  "exit_status proc0 = None \<and> batch_listeners proc0 \<and>
   exit_status (batch_emit env0 (Dispatch []) proc0) = Some 1 \<and>
   trace (batch_emit env0 (Dispatch []) proc0)
     = [CreateBatch ''/tmp'' [''a.html'', ''b.html'', ''c.html''],
        ConsoleError [JStr bad, JStr ''No browsers connected, exiting.'']] \<and>
   details (batch_emit env0 (Dispatch []) proc0)
     = \<lparr>passed = JNum 0, failed = JNum 0, currentIndex = 0, total = 3\<rparr> \<and>
   batch_run env0 events0 (batch_emit env0 (Dispatch []) proc0)
     = batch_emit env0 (Dispatch []) proc0 \<and>
   run env0 opts0 [Batch Complete] (batch_emit env0 (Dispatch []) proc0)
     = batch_emit env0 (Dispatch []) proc0"
proof -
  have h: "exit_status proc0 = None" "batch_listeners proc0" by (simp_all add: proc0_simps)
  from empty_dispatch_fatal [OF h, of env0 events0 opts0 "[Batch Complete]"] h show ?thesis
    by (simp add: proc0_simps)
qed

subsection \<open>C5: the percentage is never taken of a zero total\<close>



subsection \<open>C6: errors of the hub\<close>

text \<open>
  Claim C6 says that a bind failure of the fallback hub of a batch run ends the process
  with a diagnostic that names the port, and that no connection is attempted afterwards. The
  listener that \<^verbatim>\<open>createHub\<close> registers rethrows every error, so a bind failure is
  reported by the handler of uncaught exceptions, from the stack of the error; and the
  connection to the new hub is started right after \<^verbatim>\<open>listen\<close>. The run below connects
  to no hub at first, creates one on port 9000, and is told that the port is in use.
\<close>

theorem fallback_hub_bind_failure_counterexample:
  "exit_status (run env0 opts0 [ConnectDone (Some err_refused), HubError err_inuse]
      (route env0 ''yeti'' opts0)) = Some 1 \<and>
   trace (run env0 opts0 [ConnectDone (Some err_refused), HubError err_inuse]
      (route env0 ''yeti'' opts0)) =
     [ClientConnect ''http://localhost:9000'',
      ConsoleError [JStr ''Creating a Hub at http://localhost:9000''],
      HubNew None, HubListen 9000,
      ClientConnect ''http://localhost:9000'',
      ConsoleError [JStr (''Yeti v0.1.0 (Node.js v0.6.0) Error: Error: listen EADDRINUSE'' @
                          [CHR 0x0A] @ ''Report this bug at http://bugs.example'')]]"
  by (simp add: run_def deliver_def route_def opts0_def proc_defs hub_given_def start_def
      port_of_def dec_int_9000 err_refused_def err_inuse_def uncaught_message_def
      uncaught_text_def join_nl_def env0_simps)

text \<open>
  Claim C6, as the code has it. In a batch run whose first connection fails,
  \<^verbatim>\<open>createHub\<close> creates the hub, calls \<^verbatim>\<open>listen\<close> and at once starts the
  connection to it; any error of that hub, a bind failure included, then goes to the handler
  of uncaught exceptions, which prints its report and exits with status 1, and nothing runs
  afterwards. It is \<^verbatim>\<open>startServer\<close> that tells a bind failure apart: there the error
  code \<^verbatim>\<open>EADDRINUSE\<close> ends the process with status 1 and the diagnostic that names
  the port, every other error goes to the handler of uncaught exceptions (status 1 as well),
  and no connection is made at all.
\<close>

theorem hub_error_paths:
  "(remain opts \<noteq> [] \<and> err_truthy cerr \<longrightarrow>
      hub_error_once (deliver e opts (ConnectDone cerr) (route e argv1 opts))
        = Some CreateHub_rethrow \<and>
      exit_status (deliver e opts (ConnectDone cerr) (route e argv1 opts)) = None \<and>
      drop (length (trace (deliver e opts (ConnectDone cerr) (route e argv1 opts))) - 3)
           (trace (deliver e opts (ConnectDone cerr) (route e argv1 opts)))
        = [HubNew (opt_loglevel opts), HubListen (port_of opts),
           ClientConnect (''http://localhost:'' @ dec_int (port_of opts))] \<and>
      exit_status (run e opts [ConnectDone cerr, HubError err] (route e argv1 opts)) = Some 1 \<and>
      trace (run e opts [ConnectDone cerr, HubError err] (route e argv1 opts))
        = trace (deliver e opts (ConnectDone cerr) (route e argv1 opts)) @
          [ConsoleError [JStr (uncaught_message e err)]] \<and>
      run e opts ([ConnectDone cerr, HubError err] @ evs) (route e argv1 opts)
        = run e opts [ConnectDone cerr, HubError err] (route e argv1 opts)) \<and>
   (remain opts' = [] \<and> opt_server opts' \<longrightarrow>
      trace (route e argv1 opts') = [HubNew (opt_loglevel opts'), HubListen (port_of opts')] \<and>
      exit_status (run e opts' [HubError err] (route e argv1 opts')) = Some 1 \<and>
      trace (run e opts' [HubError err] (route e argv1 opts'))
        = [HubNew (opt_loglevel opts'), HubListen (port_of opts'),
           ConsoleError
             (if err_code err = JStr ''EADDRINUSE''
              then [JStr ''Unable to start the Hub because port %s is in use.'',
                    JNum (port_of opts')]
              else [JStr (uncaught_message e err)])] \<and>
      run e opts' ([HubError err] @ evs) (route e argv1 opts')
        = run e opts' [HubError err] (route e argv1 opts')) \<and>
   (exit_status s = None \<and> hub_error_once s = Some CreateHub_rethrow \<longrightarrow>
      deliver e opts (HubError err) s = uncaught e err (s\<lparr>hub_error_once := None\<rparr>) \<and>
      exit_status (deliver e opts (HubError err) s) = Some 1)"
proof (intro conjI impI)
  assume a: "remain opts \<noteq> [] \<and> err_truthy cerr"
  let ?s1 = "deliver e opts (ConnectDone cerr) (route e argv1 opts)"
  let ?s2 = "run e opts [ConnectDone cerr, HubError err] (route e argv1 opts)"
  show h: "hub_error_once ?s1 = Some CreateHub_rethrow"
    using a by (simp add: deliver_def route_def proc_defs start_def)
  show x: "exit_status ?s1 = None"
    using a by (simp add: deliver_def route_def proc_defs start_def)
  show "drop (length (trace ?s1) - 3) (trace ?s1)
        = [HubNew (opt_loglevel opts), HubListen (port_of opts),
           ClientConnect (''http://localhost:'' @ dec_int (port_of opts))]"
    using a by (simp add: deliver_def route_def proc_defs start_def)
  have s2: "?s2 = uncaught e err (?s1\<lparr>hub_error_once := None\<rparr>)"
    using h x by (simp add: run_def deliver_def on_hub_error_def)
  show e2: "exit_status ?s2 = Some 1" by (simp add: s2 uncaught_simps)
  show "trace ?s2 = trace ?s1 @ [ConsoleError [JStr (uncaught_message e err)]]"
    by (simp add: s2 uncaught_simps)
  have "run e opts ([ConnectDone cerr, HubError err] @ evs) (route e argv1 opts)
      = run e opts evs ?s2" by (simp add: run_def)
  then show "run e opts ([ConnectDone cerr, HubError err] @ evs) (route e argv1 opts) = ?s2"
    using e2 by (simp add: run_exited)
next
  assume a: "remain opts' = [] \<and> opt_server opts'"
  let ?s1 = "route e argv1 opts'"
  let ?s2 = "run e opts' [HubError err] ?s1"
  show t1: "trace ?s1 = [HubNew (opt_loglevel opts'), HubListen (port_of opts')]"
    using a by (simp add: route_def proc_defs start_def)
  have s2: "?s2 = on_hub_error e opts' StartServer_handler err (?s1\<lparr>hub_error_once := None\<rparr>)"
    using a by (simp add: run_def deliver_def route_def proc_defs start_def)
  show e2: "exit_status ?s2 = Some 1"
    by (simp add: s2 on_hub_error_def uncaught_simps panic_simps)
  show "trace ?s2 = [HubNew (opt_loglevel opts'), HubListen (port_of opts'),
           ConsoleError
             (if err_code err = JStr ''EADDRINUSE''
              then [JStr ''Unable to start the Hub because port %s is in use.'',
                    JNum (port_of opts')]
              else [JStr (uncaught_message e err)])]"
    using t1 by (simp add: s2 on_hub_error_def uncaught_simps panic_simps)
  have "run e opts' ([HubError err] @ evs) ?s1 = run e opts' evs ?s2" by (simp add: run_def)
  then show "run e opts' ([HubError err] @ evs) ?s1 = ?s2"
    using e2 by (simp add: run_exited)
next
  assume a: "exit_status s = None \<and> hub_error_once s = Some CreateHub_rethrow"
  then show d: "deliver e opts (HubError err) s = uncaught e err (s\<lparr>hub_error_once := None\<rparr>)"
    by (simp add: deliver_def on_hub_error_def)
  show "exit_status (deliver e opts (HubError err) s) = Some 1"
    by (simp add: d uncaught_simps)
qed

theorem hub_error_paths_witness:
  "remain opts0 \<noteq> [] \<and> err_truthy (Some err_refused) \<and>
   remain opts_server = [] \<and> opt_server opts_server \<and>
   hub_error_once (deliver env0 opts0 (ConnectDone (Some err_refused)) (route env0 ''yeti'' opts0))
     = Some CreateHub_rethrow \<and>
   exit_status (run env0 opts0 [ConnectDone (Some err_refused), HubError err_inuse]
     (route env0 ''yeti'' opts0)) = Some 1 \<and>
   run env0 opts0 ([ConnectDone (Some err_refused), HubError err_inuse] @ [ConnectDone None])
     (route env0 ''yeti'' opts0)
     = run env0 opts0 [ConnectDone (Some err_refused), HubError err_inuse]
         (route env0 ''yeti'' opts0) \<and>
   exit_status (run env0 opts_server [HubError err_inuse] (route env0 ''yeti'' opts_server))
     = Some 1 \<and>
   trace (run env0 opts_server [HubError err_inuse] (route env0 ''yeti'' opts_server))
     = [HubNew None, HubListen 8090,
        ConsoleError [JStr ''Unable to start the Hub because port %s is in use.'', JNum 8090]] \<and>
   exit_status (createHub opts0 start) = None \<and>
   hub_error_once (createHub opts0 start) = Some CreateHub_rethrow \<and>
   exit_status (deliver env0 opts0 (HubError err_inuse) (createHub opts0 start)) = Some 1"
proof -
  have h: "remain opts0 \<noteq> [] \<and> err_truthy (Some err_refused)"
    by (simp add: opts0_def err_refused_def)
  have h': "remain opts_server = [] \<and> opt_server opts_server"
    by (simp add: opts_server_def)
  have p: "port_of opts_server = 8090" "opt_loglevel opts_server = None"
    by (simp_all add: port_of_def opts_server_def)
  have c: "err_code err_inuse = JStr ''EADDRINUSE''" by (simp add: err_inuse_def)
  have g: "exit_status (createHub opts0 start) = None \<and>
      hub_error_once (createHub opts0 start) = Some CreateHub_rethrow"
    by (simp add: proc_defs start_def)
  from hub_error_paths [of opts0 "Some err_refused" env0 "''yeti''" err_inuse
      "[ConnectDone None]" opts_server "createHub opts0 start"] h h' g
  show ?thesis by (simp add: p c uncaught_simps)
qed

subsection \<open>C7: no agents and no terminal\<close>

text \<open>
  Claim C7. Let a process started by \<^verbatim>\<open>route\<close> have reached, by any events, the point
  where it waits for the list of agents. If the error stream is not a terminal and the list
  arrives empty, the process prints the report of the handler of uncaught exceptions with
  the text \<^verbatim>\<open>Unable to connect to Hub or start an interactive session.\<close> and exits with
  status 1. Whatever events follow, the handlers of the batch are never registered, no batch
  is created, and no progress line is ever written.
\<close>

theorem no_agents_noninteractive_fatal:
  assumes "s = run e opts pre (route e argv1 opts)"
    and "exit_status s = None" and "getAgents_pending s"
    and "\<not> isTTY e" and "\<not> err_truthy err"
  shows "exit_status (run e opts (AgentsListed err [] # post) s) = Some 1 \<and>
         trace (run e opts (AgentsListed err [] # post) s) =
           trace s @ [ConsoleError [JStr
             (''Yeti v'' @ meta_version e @ '' (Node.js '' @ process_version e @
              '') Error: Unable to connect to Hub or start an interactive session.'' @
              [CHR 0x0A] @ ''Report this bug at '' @ meta_bugs_url e)]] \<and>
         \<not> batch_listeners (run e opts (AgentsListed err [] # post) s) \<and>
         list_all (\<lambda>x. \<not> is_render x \<and> \<not> is_submit x)
           (trace (run e opts (AgentsListed err [] # post) s))"
proof -
  let ?s1 = "deliver e opts (AgentsListed err []) s"
  have "phased s" using assms(1) by (simp add: run_phased route_phased)
  then have idle: "idle s" using assms(3) by (simp add: phased_def)
  have s1: "?s1 = s\<lparr>getAgents_pending := False,
       trace := trace s @ [ConsoleError [JStr (uncaught_message e (ErrString no_agents_msg))]],
       exit_status := Some 1\<rparr>"
    using assms(2-5) by (rule no_agents_fatal_step)
  then have "exit_status ?s1 \<noteq> None" by simp
  then have fin: "run e opts (AgentsListed err [] # post) s = ?s1"
    by (simp add: run_Cons run_exited)
  have msg: "uncaught_message e (ErrString no_agents_msg) =
      ''Yeti v'' @ meta_version e @ '' (Node.js '' @ process_version e @
      '') Error: Unable to connect to Hub or start an interactive session.'' @
      [CHR 0x0A] @ ''Report this bug at '' @ meta_bugs_url e"
    using assms(4) by (simp add: uncaught_message_def uncaught_text_def join_nl_def no_agents_msg_def)
  show ?thesis
    using idle by (simp add: fin s1 msg idle_def is_render_def is_submit_def)
qed

theorem no_agents_noninteractive_fatal_witness:
  "exit_status (run env0 opts0 [ConnectDone None] (route env0 ''yeti'' opts0)) = None \<and>
   getAgents_pending (run env0 opts0 [ConnectDone None] (route env0 ''yeti'' opts0)) \<and>
   \<not> isTTY env0 \<and> \<not> err_truthy None \<and>
   exit_status (run env0 opts0 [ConnectDone None, AgentsListed None [], Batch (AgentBeat ''ua'')]
     (route env0 ''yeti'' opts0)) = Some 1 \<and>
   trace (run env0 opts0 [ConnectDone None, AgentsListed None [], Batch (AgentBeat ''ua'')]
     (route env0 ''yeti'' opts0)) =
     [ClientConnect ''http://localhost:9000'',
      ConsoleError [JStr ''Connected to http://localhost:9000''],
      ClientGetAgents,
      ConsoleError [JStr (''Yeti v0.1.0 (Node.js v0.6.0) Error: Unable to connect to Hub or start an interactive session.'' @
              [CHR 0x0A] @ ''Report this bug at http://bugs.example'')]]"
proof -
  let ?s = "run env0 opts0 [ConnectDone None] (route env0 ''yeti'' opts0)"
  have s: "?s = start\<lparr>url := ''http://localhost:9000'',
      trace := [ClientConnect ''http://localhost:9000'',
         ConsoleError [JStr ''Connected to http://localhost:9000''], ClientGetAgents],
      getAgents_pending := True, client_listeners := True\<rparr>"
    by (simp add: run_def deliver_def route_def opts0_def proc_defs hub_given_def start_def)
  have h1: "exit_status ?s = None" and h2: "getAgents_pending ?s"
    by (simp_all add: s start_def)
  have h3: "\<not> isTTY env0" by (simp add: env0_simps)
  have h4: "\<not> err_truthy None" by simp
  have r: "run env0 opts0 [ConnectDone None, AgentsListed None [], Batch (AgentBeat ''ua'')]
       (route env0 ''yeti'' opts0) = run env0 opts0 (AgentsListed None [] # [Batch (AgentBeat ''ua'')]) ?s"
    by (simp add: run_def)
  from no_agents_noninteractive_fatal [OF refl h1 h2 h3 h4, of "[Batch (AgentBeat ''ua'')]"]
  show ?thesis
    using h1 h2 h3 unfolding r by (simp add: s start_def env0_simps)
qed

subsection \<open>C8: one failing test in a result tree\<close>

text \<open>
  Claim C8 says that a tree with one failing leaf at depth 3, inside two nested suite
  mappings, makes \<^verbatim>\<open>displayVerboseResult\<close> print one failure block. The function goes
  below a node of depth 1 only when its \<^verbatim>\<open>failed\<close> property is truthy, and walks a node
  of depth 2 only when it has the properties \<^verbatim>\<open>passed\<close>, \<^verbatim>\<open>failed\<close> and
  \<^verbatim>\<open>type\<close>. Two results that report one failure at the top, as the handler of
  \<^verbatim>\<open>agentResult\<close> requires before it displays anything: in the first the two mappings are
  plain, in the second the outer one counts a failure and the inner one is plain. The failing
  leaf is not reached in either: after the line of the agent only the closing empty line is
  printed.
\<close>

theorem plain_mappings_counterexample:
  "displayVerboseResult env0 tree_plain
     = \<lparr>lastSuite = JUndefined, lastSuiteKey = [], printed = [[JStr []]], raised = None\<rparr> \<and>
   trace (batch_emit env0 (AgentResult ''ua1'' tree_plain) proc0)
     = [CreateBatch ''/tmp'' [''a.html'', ''b.html'', ''c.html''],
        ConsoleError [JStr bad, JStr ''report'', JStr ''on'', JStr ''ua1''],
        ConsoleError [JStr []]] \<and>
   displayVerboseResult env0 tree_unmarked
     = \<lparr>lastSuite = JUndefined, lastSuiteKey = [], printed = [[JStr []]], raised = None\<rparr> \<and>
   trace (batch_emit env0 (AgentResult ''ua1'' tree_unmarked) proc0)
     = [CreateBatch ''/tmp'' [''a.html'', ''b.html'', ''c.html''],
        ConsoleError [JStr bad, JStr ''report'', JStr ''on'', JStr ''ua1''],
        ConsoleError [JStr []]]"
proof -
  have "trace (on_agentResult env0 ''ua1'' tree_plain proc0)
      = trace proc0 @ ConsoleError [JStr (red env0 (JStr bad)), JStr (bold env0 (JStr ''report'')),
          JStr ''on'', JStr ''ua1'']
        # map ConsoleError (printed (displayVerboseResult env0 tree_plain))"
    by (rule on_agentResult_failing_trace [OF plain_trees_get(1,2) _ plain_trees_get(3)])
       (simp_all add: plain_trees_walk)
  moreover have "trace (on_agentResult env0 ''ua1'' tree_unmarked proc0)
      = trace proc0 @ ConsoleError [JStr (red env0 (JStr bad)), JStr (bold env0 (JStr ''report'')),
          JStr ''on'', JStr ''ua1'']
        # map ConsoleError (printed (displayVerboseResult env0 tree_unmarked))"
    by (rule on_agentResult_failing_trace [OF plain_trees_get(4,5) _ plain_trees_get(6)])
       (simp_all add: plain_trees_walk)
  ultimately show ?thesis
    by (simp add: batch_emit_def proc0_simps plain_trees_walk env0_simps)
qed

text \<open>
  Claim C8, as the code has it. Let a result tree hold a failing test (its \<^verbatim>\<open>result\<close>
  is \<^verbatim>\<open>"fail"\<close> and its message a string) at depth 3: in a test case (an object with
  the properties \<^verbatim>\<open>passed\<close>, \<^verbatim>\<open>failed\<close> and \<^verbatim>\<open>type\<close>), itself in a suite
  whose \<^verbatim>\<open>failed\<close> count is truthy; and let no other node down to that depth be
  \<^verbatim>\<open>null\<close> or failing. Then \<^verbatim>\<open>displayVerboseResult\<close> prints the name of the suite
  of depth 1, once; the name of the test with the first line of its message; each further
  line of the message, indented; and the closing empty line. Nothing else is printed and no
  exception is raised. A node that is not failing, a passing test for one, prints nothing.
  A suite whose \<^verbatim>\<open>failed\<close> is not truthy is passed over, whatever is below it. A node
  of depth 2 without the three properties is not walked: it is reported as a test itself, and
  so is passed over, whatever is below it, unless its own \<^verbatim>\<open>result\<close> is \<^verbatim>\<open>"fail"\<close>.
\<close>

theorem single_failing_leaf_block:
  assumes "result = JObj (rs1 @ (k, suite) # rs2)"
    and "suite = JObj (qs1 @ (k1, tc) # qs2)"
    and "tc = JObj (ps1 @ (i, leaf) # ps2)"
    and "list_all (\<lambda>p. quiet_suite (snd p)) (rs1 @ rs2)"
    and "list_all (\<lambda>p. quiet_test (snd p)) (qs1 @ qs2)"
    and "list_all (\<lambda>p. not_failing (snd p)) (ps1 @ ps2)"
    and "js_get suite ''failed'' = Some f" and "truthy f"
    and "js_get suite ''name'' = Some sname"
    and "hasResults tc tc = Some True"
    and "js_get leaf ''result'' = Some (JStr ''fail'')"
    and "js_get leaf ''message'' = Some (JStr m)"
    and "js_get leaf ''name'' = Some tname"
  shows "displayVerboseResult e result =
           \<lparr>lastSuite = sname, lastSuiteKey = k,
            printed =
              [[JStr ''   in'', JStr (bold e sname)],
               [JStr ''    '', JStr (bold e (JStr (red e tname)) @ '':''), JStr (hd (split_nl m))]] @
              map (\<lambda>l. [JStr (''       '' @ l)]) (tl (split_nl m)) @ [[JStr []]],
            raised = None\<rparr> \<and>
         length (filter (\<lambda>args. hd args = JStr ''   in'')
                   (printed (displayVerboseResult e result))) = 1 \<and>
         (not_failing v \<longrightarrow> reportTestError e su v w = w) \<and>
         (js_get s' ''failed'' = Some f' \<and> \<not> truthy f' \<longrightarrow> visit_suite e (k', s') w = w) \<and>
         (hasResults t t = Some False \<longrightarrow>
            visit_test e su (k1', t) w = reportTestError e su t w) \<and>
         (hasResults t t = Some False \<and> not_failing t \<longrightarrow> visit_test e su (k1', t) w = w)"
proof -
  have "displayVerboseResult e result =
      \<lparr>lastSuite = sname, lastSuiteKey = k,
       printed = failure_block e sname tname m @ [[JStr []]], raised = None\<rparr>"
    using assms by (rule walker_one_failure)
  then show ?thesis
    using failure_block_in_once [of e sname tname m]
    by (simp add: failure_block_def reportTestError_quiet visit_suite_skipped visit_test_unmarked)
qed

theorem single_failing_leaf_block_witness:
  "quiet_suite (JStr ''report'') \<and> quiet_test (JNum 1) \<and> not_failing leaf_ok \<and>
   js_get suite_outer ''failed'' = Some (JNum 1) \<and> truthy (JNum 1) \<and>
   js_get suite_outer ''name'' = Some (JStr ''Outer'') \<and>
   hasResults case_inner case_inner = Some True \<and>
   js_get leaf_bad ''result'' = Some (JStr ''fail'') \<and>
   displayVerboseResult env0 result_fail =
     \<lparr>lastSuite = JStr ''Outer'', lastSuiteKey = ''Outer'',
      printed = [[JStr ''   in'', JStr ''Outer''],
                 [JStr ''    '', JStr ''testBad:'', JStr ''Expected 1''],
                 [JStr ''       Actual 2''], [JStr []]],
      raised = None\<rparr> \<and>
   reportTestError env0 (''Outer'', suite_outer) leaf_ok walker0 = walker0 \<and>
   js_get plain_outer ''failed'' = Some JUndefined \<and> \<not> truthy JUndefined \<and>
   visit_suite env0 (''Outer'', plain_outer) walker0 = walker0 \<and>
   hasResults plain_inner plain_inner = Some False \<and> not_failing plain_inner \<and>
   visit_test env0 (''Outer'', suite_outer) (''Inner'', plain_inner) walker0 = walker0"
proof -
  have a1: "result_fail = JObj ([(''passed'', JNum 1), (''failed'', JNum 1),
     (''name'', JStr ''report''), (''type'', JStr ''report'')] @ (''Outer'', suite_outer) # [])"
    by (simp add: result_fail_def)
  have a2: "suite_outer = JObj ([(''passed'', JNum 1), (''failed'', JNum 1),
     (''name'', JStr ''Outer''), (''type'', JStr ''testsuite'')] @ (''Inner'', case_inner) # [])"
    by (simp add: suite_outer_def)
  have a3: "case_inner = JObj ([(''passed'', JNum 1), (''failed'', JNum 1),
     (''name'', JStr ''Inner''), (''type'', JStr ''testcase''), (''testOk'', leaf_ok)] @
     (''testBad'', leaf_bad) # [])"
    by (simp add: case_inner_def)
  have a4: "list_all (\<lambda>p. quiet_suite (snd p)) ([(''passed'', JNum 1), (''failed'', JNum 1),
     (''name'', JStr ''report''), (''type'', JStr ''report'')] @ [])"
    by (simp add: quiet_suite_def)
  have a5: "list_all (\<lambda>p. quiet_test (snd p)) ([(''passed'', JNum 1), (''failed'', JNum 1),
     (''name'', JStr ''Outer''), (''type'', JStr ''testsuite'')] @ [])"
    by (simp add: quiet_test_def)
  have a6: "list_all (\<lambda>p. not_failing (snd p)) ([(''passed'', JNum 1), (''failed'', JNum 1),
     (''name'', JStr ''Inner''), (''type'', JStr ''testcase''), (''testOk'', leaf_ok)] @ [])"
    by (simp add: not_failing_def leaf_ok_def)
  have a7: "js_get suite_outer ''failed'' = Some (JNum 1)" by (simp add: suite_outer_def)
  have a8: "truthy (JNum 1)" by simp
  have a9: "js_get suite_outer ''name'' = Some (JStr ''Outer'')" by (simp add: suite_outer_def)
  have a10: "hasResults case_inner case_inner = Some True"
    by (simp add: hasResults_def case_inner_def)
  have a11: "js_get leaf_bad ''result'' = Some (JStr ''fail'')" by (simp add: leaf_bad_def)
  have a12: "js_get leaf_bad ''message'' = Some (JStr (''Expected 1'' @ [CHR 0x0A] @ ''Actual 2''))"
    by (simp add: leaf_bad_def)
  have a13: "js_get leaf_bad ''name'' = Some (JStr ''testBad'')" by (simp add: leaf_bad_def)
  have q: "quiet_suite (JStr ''report'')" "quiet_test (JNum 1)" "not_failing leaf_ok"
    by (simp_all add: quiet_suite_def quiet_test_def not_failing_def leaf_ok_def)
  have g: "js_get plain_outer ''failed'' = Some JUndefined" "\<not> truthy JUndefined"
      "hasResults plain_inner plain_inner = Some False" "not_failing plain_inner"
    by (simp_all add: plain_outer_def plain_inner_def hasResults_def not_failing_def)
  from single_failing_leaf_block [OF a1 a2 a3 a4 a5 a6 a7 a8 a9 a10 a11 a12 a13,
      of env0 leaf_ok "(''Outer'', suite_outer)" walker0 plain_outer JUndefined "''Outer''"
         plain_inner "''Inner''"]
    q a7 a9 a10 a11 g
  show ?thesis by (simp add: env0_simps reportTestError_quiet)
qed

subsection \<open>C9: script errors and agent errors leave the aggregate alone\<close>

text \<open>
  Claim C9. The handlers of \<^verbatim>\<open>agentScriptError\<close> and \<^verbatim>\<open>agentError\<close>, called
  directly or through the delivery of the event, leave the aggregate (all four fields of
  \<^verbatim>\<open>batchDetails\<close>) and the counter \<^verbatim>\<open>beats\<close> as they were, in every state and for
  every payload.
\<close>

theorem agent_error_events_frame:
  "details (on_agentScriptError e agent d s) = details s \<and>
   beats (on_agentScriptError e agent d s) = beats s \<and>
   details (on_agentError e agent d s) = details s \<and>
   beats (on_agentError e agent d s) = beats s \<and>
   details (batch_emit e (AgentScriptError agent d) s) = details s \<and>
   beats (batch_emit e (AgentScriptError agent d) s) = beats s \<and>
   details (batch_emit e (AgentError agent d) s) = details s \<and>
   beats (batch_emit e (AgentError agent d) s) = beats s"
  by (simp add: batch_emit_def on_agentScriptError_simps on_agentError_simps)

theorem agent_error_events_frame_witness:
  "details (on_agentScriptError env0 ''ua1'' script_error0 proc1) = details proc1 \<and>
   beats (on_agentScriptError env0 ''ua1'' script_error0 proc1) = beats proc1 \<and>
   details (on_agentError env0 ''ua1'' script_error0 proc1) = details proc1 \<and>
   beats (on_agentError env0 ''ua1'' script_error0 proc1) = beats proc1 \<and>
   details (batch_emit env0 (AgentScriptError ''ua1'' script_error0) proc1) = details proc1 \<and>
   beats (batch_emit env0 (AgentScriptError ''ua1'' script_error0) proc1) = beats proc1 \<and>
   details (batch_emit env0 (AgentError ''ua1'' script_error0) proc1) = details proc1 \<and>
   beats (batch_emit env0 (AgentError ''ua1'' script_error0) proc1) = beats proc1"
  by (rule agent_error_events_frame)

subsection \<open>C10: the spinner\<close>

text \<open>
  Claim C10. \<^verbatim>\<open>spinIndex\<close> is 0 after \<^verbatim>\<open>submitBatch\<close>; it is below 4 after every
  call of \<^verbatim>\<open>updateProgress\<close> and after every list of batch events, so that the glyph
  read for the next progress line is one of the four of \<^verbatim>\<open>spin\<close>; and after \<open>n\<close>
  calls of \<^verbatim>\<open>updateProgress\<close> it is \<open>n mod 4\<close>: the lines show \<^verbatim>\<open>/\<close>, \<^verbatim>\<open>|\<close>,
  \<^verbatim>\<open>\\<close>, \<^verbatim>\<open>-\<close> in turn, again and again.
\<close>

theorem spinner_cycles:
  "spinIndex (submitBatch e tests s) = 0 \<and>
   spinIndex (updateProgress e s') < 4 \<and>
   spinIndex (batch_run e evs (submitBatch e tests s)) < 4 \<and>
   spin_at (spinIndex (batch_run e evs (submitBatch e tests s))) \<in> set spin \<and>
   spinIndex ((updateProgress e ^^ n) (submitBatch e tests s)) = n mod 4 \<and>
   spin_at (spinIndex ((updateProgress e ^^ n) (submitBatch e tests s)))
     = [''/'', ''|'', [CHR 0x5C], ''-''] ! (n mod 4) \<and>
   take 12 (progress_line e ((updateProgress e ^^ n) (submitBatch e tests s)))
     = ''Testing... '' @ [''/'', ''|'', [CHR 0x5C], ''-''] ! (n mod 4)"
proof -
  let ?s0 = "submitBatch e tests s"
  have z: "spinIndex ?s0 = 0" by (simp add: submitBatch_simps)
  then have inv: "spinIndex (batch_run e evs ?s0) < 4" by (intro batch_run_spin) simp
  then have mem: "spin_at (spinIndex (batch_run e evs ?s0)) \<in> set spin"
    by (simp add: spin_at_def length_spin)
  have cyc: "spinIndex ((updateProgress e ^^ n) ?s0) = n mod 4"
    using z by (rule updateProgress_funpow_spin)
  have gl: "spin_at (n mod 4) = [''/'', ''|'', [CHR 0x5C], ''-''] ! (n mod 4)"
    by (rule spin_at_values) simp
  have "take 12 (progress_line e ((updateProgress e ^^ n) ?s0))
      = ''Testing... '' @ spin_at (n mod 4)"
    using cyc by (rule progress_line_glyph) simp
  with gl z inv mem cyc show ?thesis by (simp add: updateProgress_simps)
qed

theorem spinner_cycles_witness:
  "spinIndex (submitBatch env0 [''a.html''] start) = 0 \<and>
   spinIndex (updateProgress env0 proc1) < 4 \<and>
   spinIndex (batch_run env0 events0 (submitBatch env0 [''a.html''] start)) < 4 \<and>
   spin_at (spinIndex (batch_run env0 events0 (submitBatch env0 [''a.html''] start))) \<in> set spin \<and>
   spinIndex ((updateProgress env0 ^^ 6) (submitBatch env0 [''a.html''] start)) = 6 mod 4 \<and>
   spin_at (spinIndex ((updateProgress env0 ^^ 6) (submitBatch env0 [''a.html''] start)))
     = [''/'', ''|'', [CHR 0x5C], ''-''] ! (6 mod 4) \<and>
   take 12 (progress_line env0 ((updateProgress env0 ^^ 6) (submitBatch env0 [''a.html''] start)))
     = ''Testing... '' @ [''/'', ''|'', [CHR 0x5C], ''-''] ! (6 mod 4)"
  by (rule spinner_cycles)

end
